theory Spec2Isabelle
  imports Complex_Main "HOL-Library.Log_Nat" "HOL-Library.Multiset"
begin

section \<open>JavaScript values\<close>

text \<open>
  The task records of the planner are plain JavaScript objects whose fields hold
  primitive values. A Number is an IEEE-754 binary64 value: not-a-number, one of the
  two infinities, or a finite value, written here as the rational it denotes.
\<close>

datatype jsnum = NaN | PosInf | NegInf | Fin rat

datatype jsval = Undefined | Null | Bool bool | Num jsnum | Str string

datatype error = TypeError | SyntaxError | StorageError

text \<open>
  An object is the list of its own properties in insertion order. Reading a property
  that the object does not have gives \<open>undefined\<close>; writing a property overwrites
  it in place or appends it.
\<close>

type_synonym jsobject = "(string \<times> jsval) list"

type_synonym task = jsobject

definition get :: "jsobject \<Rightarrow> string \<Rightarrow> jsval" where
  "get obj k = (case map_of obj k of None \<Rightarrow> Undefined | Some v \<Rightarrow> v)"

fun set_prop :: "string \<Rightarrow> jsval \<Rightarrow> jsobject \<Rightarrow> jsobject" where
  "set_prop k v [] = [(k, v)]"
| "set_prop k v ((k', v') # rest) =
     (if k' = k then (k, v) # rest else (k', v') # set_prop k v rest)"

text \<open>The object literal \<^verbatim>\<open>{ ...a, ...b }\<close>: the properties of \<open>a\<close>, then each of \<open>b\<close> written over them.\<close>

definition spread :: "jsobject \<Rightarrow> jsobject \<Rightarrow> jsobject" where
  "spread a b = fold (\<lambda>(k, v) obj. set_prop k v obj) b a"

text \<open>\<^verbatim>\<open>a === b\<close> on primitives: the same value, except that NaN equals nothing.\<close>

definition strict_equals :: "jsval \<Rightarrow> jsval \<Rightarrow> bool" where
  "strict_equals a b = (a = b \<and> a \<noteq> Num NaN)"

text \<open>The truth value of a primitive where a condition is expected.\<close>

fun truthy :: "jsval \<Rightarrow> bool" where
  "truthy Undefined = False"
| "truthy Null = False"
| "truthy (Bool b) = b"
| "truthy (Num n) = (n \<noteq> NaN \<and> n \<noteq> Fin 0)"
| "truthy (Str s) = (s \<noteq> [])"

section \<open>Number arithmetic\<close>

text \<open>
  The result of an arithmetic operation on Numbers is the exact result rounded to the
  nearest binary64 value, a tie going to the value with the even significand.
  \<open>exponent_of x\<close> is the binary exponent of a positive \<open>x\<close>, the floor of its
  logarithm to base 2; a binary64 value has 53 significant bits, and below
  \<open>2 powi - 1022\<close> the spacing stays that of the smallest normal values.
  \<open>binary64\<close> does not overflow: it is used where the result stays below
  \<open>2 ^ 1024\<close>.
\<close>

definition round_half_even :: "rat \<Rightarrow> int" where
  "round_half_even x =
     (let f = \<lfloor>x\<rfloor>; d = x - of_int f in
      if d < 1 / 2 then f else if 1 / 2 < d then f + 1 else if even f then f else f + 1)"

definition exponent_of :: "rat \<Rightarrow> int" where
  "exponent_of x =
     (let (a, b) = quotient_of x;
          d = int (floorlog 2 (nat a)) - int (floorlog 2 (nat b))
      in if 2 powi d \<le> x then d else d - 1)"

definition binary64 :: "rat \<Rightarrow> rat" where
  "binary64 x =
     (if x = 0 then 0
      else let e = max (exponent_of \<bar>x\<bar>) (- 1022); ulp = 2 powi (e - 52)
           in sgn x * of_int (round_half_even (\<bar>x\<bar> / ulp)) * ulp)"

text \<open>\<^verbatim>\<open>Math.round\<close>: the nearest integer, a tie going up.\<close>

definition Math_round :: "rat \<Rightarrow> int" where
  "Math_round x = \<lfloor>x + 1 / 2\<rfloor>"

section \<open>JSON text\<close>

text \<open>
  \<^verbatim>\<open>JSON.stringify\<close> writes an array of objects as text and \<^verbatim>\<open>JSON.parse\<close> reads
  text back. A text that \<^verbatim>\<open>JSON.parse\<close> accepts is identified with the JSON document
  it denotes (here always an array of objects with primitive members); every text it
  rejects is \<open>Malformed\<close>. JSON has no \<open>undefined\<close>, no NaN and no infinities:
  \<^verbatim>\<open>JSON.stringify\<close> leaves a property whose value is \<open>undefined\<close> out of the object and
  writes a non-finite number as \<open>null\<close>.
\<close>

datatype json = JNull | JBool bool | JNumber rat | JString string

type_synonym json_object = "(string \<times> json) list"

datatype json_text = Document "json_object list" | Malformed

fun to_json :: "jsval \<Rightarrow> json option" where
  "to_json Undefined = None"
| "to_json Null = Some JNull"
| "to_json (Bool b) = Some (JBool b)"
| "to_json (Num (Fin q)) = Some (JNumber q)"
| "to_json (Num n) = Some JNull"
| "to_json (Str s) = Some (JString s)"

fun from_json :: "json \<Rightarrow> jsval" where
  "from_json JNull = Null"
| "from_json (JBool b) = Bool b"
| "from_json (JNumber q) = Num (Fin q)"
| "from_json (JString s) = Str s"

fun stringify_object :: "jsobject \<Rightarrow> json_object" where
  "stringify_object [] = []"
| "stringify_object ((k, v) # rest) =
     (case to_json v of None \<Rightarrow> stringify_object rest
      | Some j \<Rightarrow> (k, j) # stringify_object rest)"

definition parse_object :: "json_object \<Rightarrow> jsobject" where
  "parse_object members = map (\<lambda>(k, j). (k, from_json j)) members"

definition JSON_stringify :: "task list \<Rightarrow> json_text" where
  "JSON_stringify tasks = Document (map stringify_object tasks)"

fun JSON_parse :: "json_text \<Rightarrow> error + task list" where
  "JSON_parse (Document d) = Inr (map parse_object d)"
| "JSON_parse Malformed = Inl SyntaxError"

section \<open>AsyncStorage\<close>

text \<open>
  The key-value store of the device. Each call either settles with a result or
  rejects; whether the backend rejects reads or writes is part of its state.
\<close>

record storage =
  items :: "string \<Rightarrow> json_text option"
  getItem_rejects :: bool
  setItem_rejects :: bool

definition getItem :: "string \<Rightarrow> storage \<Rightarrow> error + json_text option" where
  "getItem k s = (if getItem_rejects s then Inl StorageError else Inr (items s k))"

definition setItem :: "string \<Rightarrow> json_text \<Rightarrow> storage \<Rightarrow> error + storage" where
  "setItem k v s =
     (if setItem_rejects s then Inl StorageError
      else Inr (s\<lparr>items := (items s)(k \<mapsto> v)\<rparr>))"

section \<open>storage.js\<close>

definition TASKS_STORAGE_KEY :: string where
  "TASKS_STORAGE_KEY = ''@smart_study_planner_tasks''"

text \<open>
  Each function is an \<^verbatim>\<open>async\<close> function whose body is one \<^verbatim>\<open>try\<close> block: the result
  is \<open>Inr\<close> the value the promise is fulfilled with, and \<open>Inl\<close> would be a rejection
  reaching the caller. The \<^verbatim>\<open>catch\<close> clause is the \<open>Inl\<close> branch of each \<open>case\<close>.
\<close>

definition saveTasks :: "task list \<Rightarrow> storage \<Rightarrow> (error + bool) \<times> storage" where
  "saveTasks tasks s =
     (let jsonValue = JSON_stringify tasks in
      case setItem TASKS_STORAGE_KEY jsonValue s of
        Inl e \<Rightarrow> (Inr False, s)
      | Inr s' \<Rightarrow> (Inr True, s'))"

definition getTasks :: "storage \<Rightarrow> error + task list" where
  "getTasks s =
     (case getItem TASKS_STORAGE_KEY s of
        Inl e \<Rightarrow> Inr []
      | Inr None \<Rightarrow> Inr []
      | Inr (Some jsonValue) \<Rightarrow>
          (case JSON_parse jsonValue of
             Inl e \<Rightarrow> Inr []
           | Inr tasks \<Rightarrow> Inr tasks))"

definition updateTask :: "jsval \<Rightarrow> jsobject \<Rightarrow> storage \<Rightarrow> (error + bool) \<times> storage" where
  "updateTask taskId updates s =
     (case getTasks s of
        Inl e \<Rightarrow> (Inr False, s)
      | Inr tasks \<Rightarrow>
          (let updatedTasks =
                 map (\<lambda>task. if strict_equals (get task ''id'') taskId
                              then spread task updates else task) tasks
           in case saveTasks updatedTasks s of
                (Inl e, s') \<Rightarrow> (Inr False, s')
              | (Inr ok, s') \<Rightarrow> (Inr ok, s')))"

definition deleteTask :: "jsval \<Rightarrow> storage \<Rightarrow> (error + bool) \<times> storage" where
  "deleteTask taskId s =
     (case getTasks s of
        Inl e \<Rightarrow> (Inr False, s)
      | Inr tasks \<Rightarrow>
          (let filteredTasks =
                 filter (\<lambda>task. \<not> strict_equals (get task ''id'') taskId) tasks
           in case saveTasks filteredTasks s of
                (Inl e, s') \<Rightarrow> (Inr False, s')
              | (Inr ok, s') \<Rightarrow> (Inr ok, s')))"

section \<open>helpers.js\<close>

text \<open>
  \<open>calculateProgress\<close>: \<open>None\<close> stands for a \<open>tasks\<close> argument that is \<open>null\<close> or
  \<open>undefined\<close>. The two counts are array lengths, which binary64 holds exactly; the
  quotient and the product are rounded.
\<close>

definition calculateProgress :: "task list option \<Rightarrow> int" where
  "calculateProgress tasks =
     (case tasks of
        None \<Rightarrow> 0
      | Some ts \<Rightarrow>
          if length ts = 0 then 0
          else let completedTasks = length (filter (\<lambda>task. truthy (get task ''completed'')) ts)
               in Math_round (binary64 (binary64 (of_nat completedTasks / of_nat (length ts)) * 100)))"

text \<open>
  \<^verbatim>\<open>String.prototype.toLowerCase\<close>. A string is the list of its characters, and the
  model has the characters U+0000 to U+00FF: the upper-case letters among them are A to Z
  and U+00C0 to U+00DE without the multiplication sign.
\<close>

definition toLowerCase :: "string \<Rightarrow> string" where
  "toLowerCase s =
     map (\<lambda>c. let n = of_char c :: nat in
              if 65 \<le> n \<and> n \<le> 90 \<or> 192 \<le> n \<and> n \<le> 222 \<and> n \<noteq> 215
              then char_of (n + 32) else c) s"

text \<open>
  \<^verbatim>\<open>a.priority?.toLowerCase()\<close>: \<open>undefined\<close> when the priority is \<open>null\<close> or
  \<open>undefined\<close>, the lower-case string when it is a string; a boolean or a number has
  no method \<open>toLowerCase\<close>, and calling it throws a TypeError.
\<close>

fun optional_toLowerCase :: "jsval \<Rightarrow> error + string option" where
  "optional_toLowerCase Undefined = Inr None"
| "optional_toLowerCase Null = Inr None"
| "optional_toLowerCase (Str s) = Inr (Some (toLowerCase s))"
| "optional_toLowerCase v = Inl TypeError"

text \<open>\<open>getPriorityColor\<close>: the \<^verbatim>\<open>switch\<close> compares the key with each label by \<^verbatim>\<open>===\<close>.\<close>

definition getPriorityColor :: "jsval \<Rightarrow> error + string" where
  "getPriorityColor priority =
     (case optional_toLowerCase priority of
        Inl e \<Rightarrow> Inl e
      | Inr key \<Rightarrow>
          Inr (if key = Some ''high'' then ''#FF4757''
               else if key = Some ''medium'' then ''#FFA502''
               else if key = Some ''low'' then ''#2ED573''
               else ''#747D8C''))"

text \<open>
  \<^verbatim>\<open>priorityOrder[key]\<close> reads a property of the object literal
  \<^verbatim>\<open>{ 'high': 1, 'medium': 2, 'low': 3 }\<close>. A property read follows the prototype chain,
  and the literal's prototype is \<^verbatim>\<open>Object.prototype\<close>: a key that names one of its members
  finds that member, a function or an object, which is truthy and is not a number.
\<close>

datatype member = Rank int | Prototype_member | Absent

definition Object_prototype :: "string list" where
  "Object_prototype = [''constructor'', ''__proto__'', ''hasOwnProperty'', ''isPrototypeOf'',
     ''propertyIsEnumerable'', ''toLocaleString'', ''toString'', ''valueOf'',
     ''__defineGetter__'', ''__defineSetter__'', ''__lookupGetter__'', ''__lookupSetter__'']"

definition priorityOrder :: "string \<Rightarrow> member" where
  "priorityOrder key =
     (if key = ''high'' then Rank 1
      else if key = ''medium'' then Rank 2
      else if key = ''low'' then Rank 3
      else if key \<in> set Object_prototype then Prototype_member
      else Absent)"

text \<open>A property key is a string: \<open>undefined\<close> as a key is the string \<^verbatim>\<open>"undefined"\<close>.\<close>

definition property_key :: "string option \<Rightarrow> string" where
  "property_key k = (case k of None \<Rightarrow> ''undefined'' | Some s \<Rightarrow> s)"

text \<open>\<^verbatim>\<open>m || 4\<close>: 4 when the left operand is \<open>undefined\<close> or 0.\<close>

definition or_4 :: "member \<Rightarrow> member" where
  "or_4 m = (case m of Absent \<Rightarrow> Rank 4 | Rank n \<Rightarrow> (if n = 0 then Rank 4 else Rank n)
             | Prototype_member \<Rightarrow> Prototype_member)"

text \<open>\<^verbatim>\<open>priorityOrder[t.priority?.toLowerCase()] || 4\<close>\<close>

definition priorityOf :: "task \<Rightarrow> error + member" where
  "priorityOf t =
     (case optional_toLowerCase (get t ''priority'') of
        Inl e \<Rightarrow> Inl e
      | Inr key \<Rightarrow> Inr (or_4 (priorityOrder (property_key key))))"

text \<open>\<^verbatim>\<open>priorityA - priorityB\<close>: a function or an object converts to NaN.\<close>

fun minus_members :: "member \<Rightarrow> member \<Rightarrow> jsnum" where
  "minus_members (Rank a) (Rank b) = Fin (of_int (a - b))"
| "minus_members a b = NaN"

text \<open>The comparator passed to \<^verbatim>\<open>sort\<close>; \<open>priorityA\<close> is computed first.\<close>

definition comparePriority :: "task \<Rightarrow> task \<Rightarrow> error + jsnum" where
  "comparePriority a b =
     (case priorityOf a of
        Inl e \<Rightarrow> Inl e
      | Inr priorityA \<Rightarrow>
          (case priorityOf b of
             Inl e \<Rightarrow> Inl e
           | Inr priorityB \<Rightarrow> Inr (minus_members priorityA priorityB)))"

text \<open>
  \<^verbatim>\<open>Array.prototype.sort(comparefn)\<close>. The language leaves the algorithm to the engine
  and fixes the result where the comparator is consistent: the stable sorted order, two
  elements counting as equal unless the comparator's number is positive or negative (NaN
  counts as 0). The model is the stable insertion sort; an exception of the comparator
  ends the sort.
\<close>

fun positive :: "jsnum \<Rightarrow> bool" where
  "positive (Fin q) = (0 < q)"
| "positive PosInf = True"
| "positive n = False"

fun insert_sorted :: "('a \<Rightarrow> 'a \<Rightarrow> error + jsnum) \<Rightarrow> 'a \<Rightarrow> 'a list \<Rightarrow> error + 'a list" where
  "insert_sorted comparefn x [] = Inr [x]"
| "insert_sorted comparefn x (y # ys) =
     (case comparefn x y of
        Inl e \<Rightarrow> Inl e
      | Inr v \<Rightarrow>
          if positive v
          then (case insert_sorted comparefn x ys of Inl e \<Rightarrow> Inl e | Inr zs \<Rightarrow> Inr (y # zs))
          else Inr (x # y # ys))"

fun Array_sort :: "('a \<Rightarrow> 'a \<Rightarrow> error + jsnum) \<Rightarrow> 'a list \<Rightarrow> error + 'a list" where
  "Array_sort comparefn [] = Inr []"
| "Array_sort comparefn (x # xs) =
     (case Array_sort comparefn xs of
        Inl e \<Rightarrow> Inl e
      | Inr ys \<Rightarrow> insert_sorted comparefn x ys)"

text \<open>
  Arrays live on a heap and a variable holds a reference. \<^verbatim>\<open>[...tasks]\<close> allocates a
  new array with the elements of \<open>tasks\<close> (a TypeError when \<open>tasks\<close> is no array),
  \<^verbatim>\<open>sort\<close> sorts that array in place and returns its reference.
\<close>

type_synonym ref = nat

type_synonym heap = "task list list"

definition sortByPriority :: "ref \<Rightarrow> heap \<Rightarrow> error + ref \<times> heap" where
  "sortByPriority tasks h =
     (if tasks < length h then
        (let copy = length h; h1 = h @ [h ! tasks] in
         case Array_sort comparePriority (h1 ! copy) of
           Inl e \<Rightarrow> Inl e
         | Inr sortedTasks \<Rightarrow> Inr (copy, h1[copy := sortedTasks]))
      else Inl TypeError)"

section \<open>Strings as numbers\<close>

text \<open>
  White space as \<^verbatim>\<open>trim\<close>, \<^verbatim>\<open>Number\<close> and \<^verbatim>\<open>parseFloat\<close> strip it: tab, line feed,
  vertical tab, form feed, carriage return, space and no-break space.
\<close>

definition is_whitespace :: "char \<Rightarrow> bool" where
  "is_whitespace c = (of_char c \<in> {9, 10, 11, 12, 13, 32, 160 :: nat})"

definition trimStart :: "string \<Rightarrow> string" where
  "trimStart s = dropWhile is_whitespace s"

definition trim :: "string \<Rightarrow> string" where
  "trim s = rev (dropWhile is_whitespace (rev (dropWhile is_whitespace s)))"

text \<open>Decimal digits and the value of a digit string in a base.\<close>

definition is_digit :: "char \<Rightarrow> bool" where
  "is_digit c = (48 \<le> (of_char c :: nat) \<and> (of_char c :: nat) \<le> 57)"

definition digits_value :: "nat \<Rightarrow> string \<Rightarrow> nat" where
  "digits_value base ds = foldl (\<lambda>acc c. base * acc + (of_char c - 48)) 0 ds"

text \<open>
  The exponent part of a decimal literal: \<open>e\<close> or \<open>E\<close>, an optional sign and at least
  one digit. Where there is none the exponent is 0 and nothing is consumed.
\<close>

definition exponent_part :: "string \<Rightarrow> int \<times> string" where
  "exponent_part s =
     (case s of
        [] \<Rightarrow> (0, s)
      | c # r \<Rightarrow>
          if c = CHR ''e'' \<or> c = CHR ''E'' then
            (let (sign, r') =
                   (case r of
                      [] \<Rightarrow> (1, r)
                    | d # r'' \<Rightarrow> if d = CHR ''+'' then (1, r'')
                                 else if d = CHR ''-'' then (- 1, r'') else (1, r));
                 ds = takeWhile is_digit r'
             in if ds = [] then (0, s)
                else (sign * int (digits_value 10 ds), dropWhile is_digit r'))
          else (0, s))"

text \<open>
  The longest prefix of a string that is an unsigned decimal literal of the language's
  numeric string grammar (\<^verbatim>\<open>Infinity\<close>, digits with an optional fraction and exponent,
  or a fraction that starts with the point), with its mathematical value and the rest of
  the string.
\<close>

datatype mathematical = Infinite | Exact rat

definition unsigned_decimal :: "string \<Rightarrow> (mathematical \<times> string) option" where
  "unsigned_decimal s =
     (if take 8 s = ''Infinity'' then Some (Infinite, drop 8 s)
      else
        let ip = takeWhile is_digit s; r = dropWhile is_digit s in
        case r of
          [] \<Rightarrow> if ip = [] then None else Some (Exact (of_nat (digits_value 10 ip)), [])
        | c # r1 \<Rightarrow>
            if c = CHR ''.'' then
              (let fp = takeWhile is_digit r1; r2 = dropWhile is_digit r1 in
               if ip = [] \<and> fp = [] then None
               else let (e, r3) = exponent_part r2
                    in Some (Exact ((of_nat (digits_value 10 ip)
                                      + of_nat (digits_value 10 fp) / 10 ^ length fp) * 10 powi e), r3))
            else if ip = [] then None
            else let (e, r3) = exponent_part r
                 in Some (Exact (of_nat (digits_value 10 ip) * 10 powi e), r3))"

text \<open>
  The Number for a mathematical value: the nearest binary64 value, and an infinity when
  that is \<open>2 ^ 1024\<close> or more.
\<close>

definition to_Number :: "bool \<Rightarrow> mathematical \<Rightarrow> jsnum" where
  "to_Number negative m =
     (case m of
        Infinite \<Rightarrow> if negative then NegInf else PosInf
      | Exact x \<Rightarrow>
          let y = binary64 x in
          if 2 ^ 1024 \<le> y then (if negative then NegInf else PosInf)
          else Fin (if negative then - y else y))"

text \<open>A decimal literal with its optional sign.\<close>

definition StrDecimalLiteral :: "string \<Rightarrow> (jsnum \<times> string) option" where
  "StrDecimalLiteral s =
     (case s of
        [] \<Rightarrow> None
      | c # r \<Rightarrow>
          if c = CHR ''+'' then map_option (\<lambda>(m, rest). (to_Number False m, rest)) (unsigned_decimal r)
          else if c = CHR ''-'' then map_option (\<lambda>(m, rest). (to_Number True m, rest)) (unsigned_decimal r)
          else map_option (\<lambda>(m, rest). (to_Number False m, rest)) (unsigned_decimal s))"

text \<open>The literals \<^verbatim>\<open>0x\<close>, \<^verbatim>\<open>0o\<close> and \<^verbatim>\<open>0b\<close>, which take no sign.\<close>

definition digit_of :: "nat \<Rightarrow> char \<Rightarrow> nat option" where
  "digit_of base c =
     (let n = of_char c :: nat;
          v = (if 48 \<le> n \<and> n \<le> 57 then Some (n - 48)
               else if 97 \<le> n \<and> n \<le> 102 then Some (n - 87)
               else if 65 \<le> n \<and> n \<le> 70 then Some (n - 55)
               else None)
      in case v of None \<Rightarrow> None | Some d \<Rightarrow> if d < base then Some d else None)"

definition NonDecimalIntegerLiteral :: "string \<Rightarrow> jsnum option" where
  "NonDecimalIntegerLiteral s =
     (case s of
        z # p # ds \<Rightarrow>
          (let base = (if p = CHR ''x'' \<or> p = CHR ''X'' then 16
                       else if p = CHR ''o'' \<or> p = CHR ''O'' then 8
                       else if p = CHR ''b'' \<or> p = CHR ''B'' then 2 else 0 :: nat)
           in if z = CHR ''0'' \<and> base \<noteq> 0 \<and> ds \<noteq> [] \<and> list_all (\<lambda>c. digit_of base c \<noteq> None) ds
              then Some (to_Number False
                     (Exact (of_nat (foldl (\<lambda>acc c. base * acc + the (digit_of base c)) 0 ds))))
              else None)
      | _ \<Rightarrow> None)"

text \<open>
  \<^verbatim>\<open>Number(s)\<close>, the conversion that \<^verbatim>\<open>isNaN\<close> applies to a string: white space is
  stripped at both ends, the empty string is 0, and the whole rest must be one literal.
\<close>

definition Number :: "string \<Rightarrow> jsnum" where
  "Number s =
     (let t = trim s in
      if t = [] then Fin 0
      else case StrDecimalLiteral t of
             Some (v, []) \<Rightarrow> v
           | _ \<Rightarrow> (case NonDecimalIntegerLiteral t of Some v \<Rightarrow> v | None \<Rightarrow> NaN))"

definition isNaN :: "string \<Rightarrow> bool" where
  "isNaN s = (Number s = NaN)"

text \<open>\<^verbatim>\<open>parseFloat(s)\<close>: leading white space is stripped and the longest decimal literal at the start counts.\<close>

definition parseFloat :: "string \<Rightarrow> jsnum" where
  "parseFloat s =
     (case StrDecimalLiteral (trimStart s) of
        Some (v, rest) \<Rightarrow> v
      | None \<Rightarrow> NaN)"

text \<open>\<^verbatim>\<open>x <= 0\<close>\<close>

fun le_zero :: "jsnum \<Rightarrow> bool" where
  "le_zero (Fin q) = (q \<le> 0)"
| "le_zero NegInf = True"
| "le_zero n = False"

section \<open>AddTaskScreen.js\<close>

text \<open>
  The state of the form. The deadline is a \<^verbatim>\<open>Date\<close>, the number of milliseconds since
  the epoch; the priority takes no part in the validation.
\<close>

record form =
  subject :: string
  topic :: string
  studyTime :: string
  deadline :: int

text \<open>
  \<^verbatim>\<open>today.setHours(0, 0, 0, 0)\<close>: the start of the local day of \<open>t\<close>, in a time zone
  whose local time is UTC plus \<open>offset\<close> milliseconds.
\<close>

definition setHours_0 :: "int \<Rightarrow> int \<Rightarrow> int" where
  "setHours_0 offset t = t - (t + offset) mod 86400000"

text \<open>
  \<open>validateForm\<close> returns the error object it passes to \<^verbatim>\<open>setErrors\<close> and its result.
  \<open>now\<close> is the time of the call.
\<close>

definition validateForm :: "form \<Rightarrow> int \<Rightarrow> int \<Rightarrow> jsobject \<times> bool" where
  "validateForm f offset now =
     (let newErrors = [];
          newErrors =
            (if trim (subject f) = []
             then set_prop ''subject'' (Str ''Subject name is required'') newErrors
             else newErrors);
          newErrors =
            (if trim (topic f) = []
             then set_prop ''topic'' (Str ''Topic name is required'') newErrors
             else newErrors);
          newErrors =
            (if trim (studyTime f) = []
             then set_prop ''studyTime'' (Str ''Study time is required'') newErrors
             else if isNaN (studyTime f) \<or> le_zero (parseFloat (studyTime f))
             then set_prop ''studyTime'' (Str ''Please enter a valid positive number'') newErrors
             else newErrors);
          today = setHours_0 offset now;
          newErrors =
            (if deadline f < today
             then set_prop ''deadline'' (Str ''Deadline must be today or a future date'') newErrors
             else newErrors)
      in (newErrors, length newErrors = 0))"

section \<open>ProgressScreen.js\<close>

record motivation =
  emoji :: string
  message :: string

text \<open>The emoji literals are kept as the bytes of the source file.\<close>

definition getMotivationalMessage :: "int \<Rightarrow> motivation" where
  "getMotivationalMessage progress =
     (if progress = 100 then
        \<lparr>emoji = [CHR 0xC3, CHR 0xB0, CHR 0xC5, CHR 0xB8, CHR 0xE2, CHR 0x80, CHR 0xA0],
         message = ''Perfect! You've completed all tasks!''\<rparr>
      else if progress \<ge> 75 then
        \<lparr>emoji = [CHR 0xC3, CHR 0xB0, CHR 0xC5, CHR 0xB8, CHR 0xE2, CHR 0x80, CHR 0x9D,
                  CHR 0xC2, CHR 0xA5],
         message = ''Almost there! Keep pushing!''\<rparr>
      else if progress \<ge> 50 then
        \<lparr>emoji = [CHR 0xC3, CHR 0xB0, CHR 0xC5, CHR 0xB8, CHR 0xE2, CHR 0x80, CHR 0x99,
                  CHR 0xC2, CHR 0xAA],
         message = ''Great progress! Stay focused!''\<rparr>
      else if progress \<ge> 25 then
        \<lparr>emoji = [CHR 0xC3, CHR 0xB0, CHR 0xC5, CHR 0xB8, CHR 0xE2, CHR 0x80, CHR 0x9C,
                  CHR 0xCB, CHR 0x86],
         message = ''Good start! Keep going!''\<rparr>
      else if progress > 0 then
        \<lparr>emoji = [CHR 0xC3, CHR 0xB0, CHR 0xC5, CHR 0xB8, CHR 0xC5, CHR 0xA1, CHR 0xE2,
                  CHR 0x82, CHR 0xAC],
         message = ''You've started! Let's build momentum!''\<rparr>
      else
        \<lparr>emoji = [CHR 0xC3, CHR 0xB0, CHR 0xC5, CHR 0xB8, CHR 0xE2, CHR 0x80, CHR 0x9C,
                  CHR 0xE2, CHR 0x80, CHR 0xB9],
         message = ''Add tasks to start tracking progress!''\<rparr>)"

section \<open>Predicates of the statements\<close>

text \<open>
  A value that JSON can hold: anything but \<open>undefined\<close> and the non-finite numbers.
  A task is serializable when all its fields hold such values. Every task of the data
  model is (strings, a finite positive number of hours, a boolean).
\<close>

fun json_value :: "jsval \<Rightarrow> bool" where
  "json_value Undefined = False"
| "json_value (Num NaN) = False"
| "json_value (Num PosInf) = False"
| "json_value (Num NegInf) = False"
| "json_value v = True"

definition serializable :: "jsobject \<Rightarrow> bool" where
  "serializable obj = list_all (\<lambda>(k, v). json_value v) obj"

text \<open>The properties of an object stored under one key.\<close>

definition own :: "string \<Rightarrow> (string \<times> 'a) list \<Rightarrow> (string \<times> 'a) list" where
  "own k obj = filter (\<lambda>p. fst p = k) obj"

text \<open>A task whose priority is absent, \<open>null\<close> or a string.\<close>

definition textual_priority :: "task \<Rightarrow> bool" where
  "textual_priority t =
     (case get t ''priority'' of Undefined \<Rightarrow> True | Null \<Rightarrow> True | Str s \<Rightarrow> True | _ \<Rightarrow> False)"

text \<open>
  The priority rank in the words of the specification: High 1, Medium 2, Low 3 in any
  capitalization, everything else 4.
\<close>

definition spec_rank :: "task \<Rightarrow> int" where
  "spec_rank t =
     (case get t ''priority'' of
        Str s \<Rightarrow> (if toLowerCase s = ''high'' then 1
                  else if toLowerCase s = ''medium'' then 2
                  else if toLowerCase s = ''low'' then 3 else 4)
      | _ \<Rightarrow> 4)"

text \<open>A task whose priority, in lower case, names a member of \<^verbatim>\<open>Object.prototype\<close>.\<close>

definition shadows_prototype :: "task \<Rightarrow> bool" where
  "shadows_prototype t =
     (case get t ''priority'' of Str s \<Rightarrow> toLowerCase s \<in> set Object_prototype | _ \<Rightarrow> False)"

text \<open>The number of completed tasks and the exact percentage, as a rational.\<close>

definition completedCount :: "task list \<Rightarrow> nat" where
  "completedCount ts = length (filter (\<lambda>task. truthy (get task ''completed'')) ts)"

definition exactPercent :: "task list \<Rightarrow> rat" where
  "exactPercent ts = 100 * of_nat (completedCount ts) / of_nat (length ts)"

text \<open>The calendar day of a time, in the time zone of the device.\<close>

definition local_day :: "int \<Rightarrow> int \<Rightarrow> int" where
  "local_day offset t = (t + offset) div 86400000"

section \<open>Example data\<close>

text \<open>Two tasks as the add-task form creates them, and a device that holds them.\<close>

definition mathTask :: task where
  "mathTask = [(''id'', Str ''m1''), (''subject'', Str ''Math''), (''topic'', Str ''Algebra''),
     (''studyTime'', Num (Fin 2)), (''deadline'', Str ''2026-01-16T09:00:00.000Z''),
     (''priority'', Str ''High''), (''completed'', Bool False),
     (''createdAt'', Str ''2026-01-15T09:00:00.000Z'')]"

definition historyTask :: task where
  "historyTask = [(''id'', Str ''h2''), (''subject'', Str ''History''), (''topic'', Str ''WWII''),
     (''studyTime'', Num (Fin 1)), (''deadline'', Str ''2026-01-16T09:00:00.000Z''),
     (''priority'', Str ''Low''), (''completed'', Bool False),
     (''createdAt'', Str ''2026-01-15T09:05:00.000Z'')]"

definition emptyStorage :: storage where
  "emptyStorage = \<lparr>items = (\<lambda>k. None), getItem_rejects = False, setItem_rejects = False\<rparr>"

definition plannerStorage :: storage where
  "plannerStorage = snd (saveTasks [mathTask, historyTask] emptyStorage)"

text \<open>The same device at a time when it refuses reads and accepts writes.\<close>

definition unreadableStorage :: storage where
  "unreadableStorage = plannerStorage\<lparr>getItem_rejects := True\<rparr>"

definition priorityTask :: "string \<Rightarrow> string \<Rightarrow> task" where
  "priorityTask i p = [(''id'', Str i), (''priority'', Str p)]"

definition priorityList :: "task list" where
  "priorityList = [priorityTask ''t1'' ''Low'', priorityTask ''t2'' ''High'',
     priorityTask ''t3'' ''Medium'', priorityTask ''t4'' ''High'']"

text \<open>Forty tasks of which twenty-three are completed.\<close>

definition doneTask :: task where
  "doneTask = set_prop ''completed'' (Bool True) mathTask"

definition fortyTasks :: "task list" where
  "fortyTasks = replicate 23 doneTask @ replicate 17 historyTask"

section \<open>The motivational message ladder\<close>

lemma message_tiers_distinct:
  "distinct (map (message \<circ> getMotivationalMessage) [100, 75, 50, 25, 1, 0])"
  by (simp add: getMotivationalMessage_def)

lemma emoji_tiers_distinct:
  "distinct (map (emoji \<circ> getMotivationalMessage) [100, 75, 50, 25, 1, 0])"
  by (simp add: getMotivationalMessage_def)

text \<open>
  Claim C7. The message is chosen by a ladder of six tiers: exactly 100; 75 and above;
  50 and above; 25 and above; above 0; everything else. Every percent of a tier gets
  the pair of its lowest member, the six pairs differ from each other in both
  components, so 100 and 99 get different messages, and 75, 50 and 25 belong to the
  tier they open, not to the tier below.
\<close>

theorem getMotivationalMessage_ladder:
  "(\<forall>p. 75 \<le> p \<and> p \<noteq> 100 \<longrightarrow> getMotivationalMessage p = getMotivationalMessage 75)
   \<and> (\<forall>p. 50 \<le> p \<and> p < 75 \<longrightarrow> getMotivationalMessage p = getMotivationalMessage 50)
   \<and> (\<forall>p. 25 \<le> p \<and> p < 50 \<longrightarrow> getMotivationalMessage p = getMotivationalMessage 25)
   \<and> (\<forall>p. 0 < p \<and> p < 25 \<longrightarrow> getMotivationalMessage p = getMotivationalMessage 1)
   \<and> (\<forall>p. p \<le> 0 \<longrightarrow> getMotivationalMessage p = getMotivationalMessage 0)
   \<and> distinct (map (message \<circ> getMotivationalMessage) [100, 75, 50, 25, 1, 0])
   \<and> distinct (map (emoji \<circ> getMotivationalMessage) [100, 75, 50, 25, 1, 0])
   \<and> getMotivationalMessage 100 \<noteq> getMotivationalMessage 99
   \<and> getMotivationalMessage 75 \<noteq> getMotivationalMessage 74
   \<and> getMotivationalMessage 50 \<noteq> getMotivationalMessage 49
   \<and> getMotivationalMessage 25 \<noteq> getMotivationalMessage 24"
proof -
  have tiers:
    "\<forall>p. 75 \<le> p \<and> p \<noteq> 100 \<longrightarrow> getMotivationalMessage p = getMotivationalMessage 75"
    "\<forall>p. 50 \<le> p \<and> p < 75 \<longrightarrow> getMotivationalMessage p = getMotivationalMessage 50"
    "\<forall>p. 25 \<le> p \<and> p < 50 \<longrightarrow> getMotivationalMessage p = getMotivationalMessage 25"
    "\<forall>p. 0 < p \<and> p < 25 \<longrightarrow> getMotivationalMessage p = getMotivationalMessage 1"
    "\<forall>p. p \<le> 0 \<longrightarrow> getMotivationalMessage p = getMotivationalMessage 0"
    by (simp_all add: getMotivationalMessage_def)
  have edges:
    "getMotivationalMessage 100 \<noteq> getMotivationalMessage 99"
    "getMotivationalMessage 75 \<noteq> getMotivationalMessage 74"
    "getMotivationalMessage 50 \<noteq> getMotivationalMessage 49"
    "getMotivationalMessage 25 \<noteq> getMotivationalMessage 24"
    by (simp_all add: getMotivationalMessage_def)
  show ?thesis
    by (intro conjI tiers edges message_tiers_distinct emoji_tiers_distinct)
qed

theorem getMotivationalMessage_ladder_witness:
  "getMotivationalMessage 99 = getMotivationalMessage 75
   \<and> getMotivationalMessage 60 = getMotivationalMessage 50
   \<and> getMotivationalMessage 30 = getMotivationalMessage 25
   \<and> getMotivationalMessage 10 = getMotivationalMessage 1
   \<and> getMotivationalMessage (- 5) = getMotivationalMessage 0
   \<and> message (getMotivationalMessage 100) = ''Perfect! You've completed all tasks!''
   \<and> message (getMotivationalMessage 99) = ''Almost there! Keep pushing!''"
proof -
  note ladder = getMotivationalMessage_ladder
  have "getMotivationalMessage 99 = getMotivationalMessage 75"
    using ladder [THEN conjunct1, THEN spec, of 99] by simp
  moreover have "getMotivationalMessage 60 = getMotivationalMessage 50"
    using ladder [THEN conjunct2, THEN conjunct1, THEN spec, of 60] by simp
  moreover have "getMotivationalMessage 30 = getMotivationalMessage 25"
    using ladder [THEN conjunct2, THEN conjunct2, THEN conjunct1, THEN spec, of 30] by simp
  moreover have "getMotivationalMessage 10 = getMotivationalMessage 1"
    using ladder [THEN conjunct2, THEN conjunct2, THEN conjunct2, THEN conjunct1, THEN spec, of 10]
    by simp
  moreover have "getMotivationalMessage (- 5) = getMotivationalMessage 0"
    using ladder [THEN conjunct2, THEN conjunct2, THEN conjunct2, THEN conjunct2, THEN conjunct1,
        THEN spec, of "- 5"]
    by simp
  moreover have "message (getMotivationalMessage 100) = ''Perfect! You've completed all tasks!''"
    by (simp add: getMotivationalMessage_def)
  moreover have "message (getMotivationalMessage 99) = ''Almost there! Keep pushing!''"
    by (simp add: getMotivationalMessage_def)
  ultimately show ?thesis by (intro conjI)
qed

section \<open>Serialization\<close>

lemma to_json_from_json: "to_json (from_json j) = Some j"
  by (cases j) simp_all

lemma from_json_to_json: "json_value v \<Longrightarrow> \<exists>j. to_json v = Some j \<and> from_json j = v"
  by (cases v rule: json_value.cases) simp_all

lemma stringify_parse_object: "stringify_object (parse_object d) = d"
  by (induction d) (auto simp: parse_object_def to_json_from_json)

lemma parse_stringify_object: "serializable obj \<Longrightarrow> parse_object (stringify_object obj) = obj"
proof (induction obj)
  case Nil
  then show ?case by (simp add: parse_object_def)
next
  case (Cons p obj)
  obtain k v where p: "p = (k, v)" by (cases p)
  with Cons.prems have "json_value v" "serializable obj"
    by (simp_all add: serializable_def)
  with Cons.IH p show ?case
    using from_json_to_json [of v] by (auto simp: parse_object_def)
qed

section \<open>Reading and writing the collection\<close>

lemma saveTasks_stores:
  "\<not> setItem_rejects s \<Longrightarrow>
   saveTasks tasks s =
     (Inr True, s\<lparr>items := (items s)(TASKS_STORAGE_KEY \<mapsto> Document (map stringify_object tasks))\<rparr>)"
  by (simp add: saveTasks_def setItem_def JSON_stringify_def)

lemma getTasks_Document:
  "\<not> getItem_rejects s \<Longrightarrow> items s TASKS_STORAGE_KEY = Some (Document d) \<Longrightarrow>
   getTasks s = Inr (map parse_object d)"
  by (simp add: getTasks_def getItem_def)

lemma getTasks_stored:
  "\<not> getItem_rejects s \<Longrightarrow>
   getTasks (s\<lparr>items := (items s)(TASKS_STORAGE_KEY \<mapsto> Document d)\<rparr>) = Inr (map parse_object d)"
  by (simp add: getTasks_Document)

lemma getTasks_after_saveTasks:
  "\<not> setItem_rejects s \<Longrightarrow> \<not> getItem_rejects s \<Longrightarrow>
   getTasks (snd (saveTasks tasks s)) = Inr (map (parse_object \<circ> stringify_object) tasks)"
  by (simp add: saveTasks_stores getTasks_Document)

lemma getTasks_parsed:
  assumes "getTasks s = Inr tasks"
  shows "\<exists>ds. tasks = map parse_object ds"
proof (cases "getItem TASKS_STORAGE_KEY s")
  case (Inl e)
  with assms have "tasks = map parse_object []" by (simp add: getTasks_def)
  then show ?thesis ..
next
  case (Inr found)
  show ?thesis
  proof (cases found)
    case None
    with Inr assms have "tasks = map parse_object []" by (simp add: getTasks_def)
    then show ?thesis ..
  next
    case (Some jsonValue)
    show ?thesis
    proof (cases jsonValue)
      case (Document d)
      with Some Inr assms have "tasks = map parse_object d" by (simp add: getTasks_def)
      then show ?thesis ..
    next
      case Malformed
      with Some Inr assms have "tasks = map parse_object []" by (simp add: getTasks_def)
      then show ?thesis ..
    qed
  qed
qed

lemma updateTask_stores:
  assumes "\<not> setItem_rejects s" and "getTasks s = Inr tasks"
  shows "updateTask taskId updates s =
     (Inr True, s\<lparr>items := (items s)(TASKS_STORAGE_KEY \<mapsto> Document (map stringify_object
        (map (\<lambda>task. if strict_equals (get task ''id'') taskId then spread task updates else task)
           tasks)))\<rparr>)"
  using assms by (simp add: updateTask_def saveTasks_stores)

lemma deleteTask_stores:
  assumes "\<not> setItem_rejects s" and "getTasks s = Inr tasks"
  shows "deleteTask taskId s =
     (Inr True, s\<lparr>items := (items s)(TASKS_STORAGE_KEY \<mapsto> Document (map stringify_object
        (filter (\<lambda>task. \<not> strict_equals (get task ''id'') taskId) tasks)))\<rparr>)"
  using assms by (simp add: deleteTask_def saveTasks_stores)

text \<open>The example device accepts reads and writes and holds the two example tasks.\<close>

lemma example_tasks_serializable: "list_all serializable [mathTask, historyTask]"
  by (simp add: serializable_def mathTask_def historyTask_def)

lemma emptyStorage_accepts: "\<not> getItem_rejects emptyStorage" "\<not> setItem_rejects emptyStorage"
  by (simp_all add: emptyStorage_def)

lemma plannerStorage_accepts: "\<not> getItem_rejects plannerStorage" "\<not> setItem_rejects plannerStorage"
  by (simp_all add: plannerStorage_def saveTasks_stores emptyStorage_accepts)

lemma plannerStorage_tasks: "getTasks plannerStorage = Inr [mathTask, historyTask]"
  using example_tasks_serializable
  by (simp add: plannerStorage_def getTasks_after_saveTasks emptyStorage_accepts parse_stringify_object)

text \<open>
  Claim C8. \<open>getTasks\<close> never rejects: its promise is always fulfilled with a list.
  The list is empty when the read is rejected, when nothing is stored under the key and
  when the stored text cannot be parsed; otherwise it is the stored collection, task by
  task in stored order.
\<close>

theorem getTasks_never_fails:
  "(\<exists>tasks. getTasks s = Inr tasks)
   \<and> (getItem_rejects s \<longrightarrow> getTasks s = Inr [])
   \<and> (\<not> getItem_rejects s \<and> items s TASKS_STORAGE_KEY = None \<longrightarrow> getTasks s = Inr [])
   \<and> (\<not> getItem_rejects s \<and> items s TASKS_STORAGE_KEY = Some Malformed \<longrightarrow> getTasks s = Inr [])
   \<and> (\<forall>d. \<not> getItem_rejects s \<and> items s TASKS_STORAGE_KEY = Some (Document d)
          \<longrightarrow> getTasks s = Inr (map parse_object d))"
  by (auto simp: getTasks_def getItem_def split: sum.splits option.splits)

theorem getTasks_never_fails_witness:
  "getTasks (emptyStorage\<lparr>getItem_rejects := True\<rparr>) = Inr []
   \<and> getTasks emptyStorage = Inr []
   \<and> getTasks (emptyStorage\<lparr>items := (\<lambda>k. Some Malformed)\<rparr>) = Inr []
   \<and> getTasks (emptyStorage\<lparr>items := (\<lambda>k. Some (Document [[(''id'', JString ''m1'')], [(''id'', JString ''h2'')]]))\<rparr>)
       = Inr [[(''id'', Str ''m1'')], [(''id'', Str ''h2'')]]"
proof -
  have "getTasks (emptyStorage\<lparr>getItem_rejects := True\<rparr>) = Inr []"
    using getTasks_never_fails [of "emptyStorage\<lparr>getItem_rejects := True\<rparr>"] by simp
  moreover have "getTasks emptyStorage = Inr []"
    using getTasks_never_fails [of emptyStorage] by (simp add: emptyStorage_def)
  moreover have "getTasks (emptyStorage\<lparr>items := (\<lambda>k. Some Malformed)\<rparr>) = Inr []"
    using getTasks_never_fails [of "emptyStorage\<lparr>items := (\<lambda>k. Some Malformed)\<rparr>"]
    by (simp add: emptyStorage_def)
  moreover have "getTasks (emptyStorage\<lparr>items := (\<lambda>k. Some (Document [[(''id'', JString ''m1'')], [(''id'', JString ''h2'')]]))\<rparr>)
       = Inr [[(''id'', Str ''m1'')], [(''id'', Str ''h2'')]]"
    using getTasks_never_fails [of "emptyStorage\<lparr>items := (\<lambda>k. Some (Document [[(''id'', JString ''m1'')], [(''id'', JString ''h2'')]]))\<rparr>"]
    by (simp add: emptyStorage_def parse_object_def)
  ultimately show ?thesis by (intro conjI)
qed

text \<open>
  Claim C1. Saving a sequence of tasks and reading the collection back gives the same
  sequence: the same tasks, every field preserved, in the same order. This holds for every
  sequence of serializable tasks, the empty one included, on a device that accepts the
  write and the read. The tasks of the data model are serializable: their fields are
  strings, a boolean and a finite number of hours.
\<close>

theorem saveTasks_getTasks_roundtrip:
  assumes "list_all serializable tasks" and "\<not> setItem_rejects s" and "\<not> getItem_rejects s"
  shows "fst (saveTasks tasks s) = Inr True \<and> getTasks (snd (saveTasks tasks s)) = Inr tasks"
proof -
  have "map (parse_object \<circ> stringify_object) tasks = tasks"
    using assms(1) by (induction tasks) (simp_all add: parse_stringify_object)
  moreover have "getTasks (snd (saveTasks tasks s)) = Inr (map (parse_object \<circ> stringify_object) tasks)"
    using assms(2,3) by (rule getTasks_after_saveTasks)
  moreover have "fst (saveTasks tasks s) = Inr True"
    using assms(2) by (simp add: saveTasks_stores)
  ultimately show ?thesis by simp
qed

theorem saveTasks_getTasks_roundtrip_witness:
  "list_all serializable [mathTask, historyTask]
   \<and> fst (saveTasks [mathTask, historyTask] emptyStorage) = Inr True
   \<and> getTasks (snd (saveTasks [mathTask, historyTask] emptyStorage)) = Inr [mathTask, historyTask]
   \<and> getTasks (snd (saveTasks [] emptyStorage)) = Inr []"
  using saveTasks_getTasks_roundtrip [OF example_tasks_serializable emptyStorage_accepts(2,1)]
    saveTasks_getTasks_roundtrip [of "[]", OF _ emptyStorage_accepts(2,1)]
    example_tasks_serializable
  by simp

section \<open>Updating and deleting by id\<close>

lemma get_own: "get (own k obj) k = get obj k"
  by (induction obj) (auto simp: get_def own_def)

lemma own_set_prop_other: "k' \<noteq> k \<Longrightarrow> own k (set_prop k' v obj) = own k obj"
  by (induction obj) (auto simp: own_def)

lemma own_set_prop_same: "own k (set_prop k v obj) = (k, v) # tl (own k obj)"
  by (induction obj) (auto simp: own_def)

lemma own_spread: "k \<notin> fst ` set b \<Longrightarrow> own k (spread a b) = own k a"
  unfolding spread_def
proof (induction b arbitrary: a)
  case Nil
  then show ?case by simp
next
  case (Cons p b)
  obtain k' v where p: "p = (k', v)" by (cases p)
  with Cons.prems have "k' \<noteq> k" "k \<notin> fst ` set b" by auto
  with Cons.IH [of "set_prop k' v a"] p show ?case
    by (simp add: own_set_prop_other)
qed

lemma own_stringify_object: "own k (stringify_object obj) = stringify_object (own k obj)"
  by (induction obj rule: stringify_object.induct) (auto simp: own_def split: option.splits)

lemma own_parse_object: "own k (parse_object d) = parse_object (own k d)"
  by (induction d) (auto simp: own_def parse_object_def)

lemma get_reparsed:
  "get (parse_object (stringify_object obj)) k = get (parse_object (stringify_object (own k obj))) k"
  by (metis get_own own_parse_object own_stringify_object)

text \<open>A field that the update does not name keeps its stored value through the merge and the write.\<close>

lemma get_update_frame:
  assumes "k \<notin> fst ` set updates"
  shows "get (parse_object (stringify_object (spread (parse_object d) updates))) k
         = get (parse_object d) k"
proof -
  have "get (parse_object (stringify_object (spread (parse_object d) updates))) k
        = get (parse_object (stringify_object (own k (spread (parse_object d) updates)))) k"
    by (rule get_reparsed)
  also have "\<dots> = get (parse_object (stringify_object (own k (parse_object d)))) k"
    using assms by (simp add: own_spread)
  also have "\<dots> = get (parse_object (stringify_object (parse_object d))) k"
    by (rule get_reparsed [symmetric])
  finally show ?thesis by (simp add: stringify_parse_object)
qed

text \<open>A field that the update sets to a JSON value reads back as that value.\<close>

lemma get_update_written:
  assumes "to_json v = Some j"
  shows "get (parse_object (stringify_object (spread obj [(k, v)]))) k = from_json j"
proof -
  have "get (parse_object (stringify_object (spread obj [(k, v)]))) k
        = get (parse_object (stringify_object (own k (set_prop k v obj)))) k"
    unfolding spread_def by (simp add: get_reparsed [symmetric])
  also have "\<dots> = from_json j"
    using assms by (simp add: own_set_prop_same parse_object_def get_def)
  finally show ?thesis .
qed

text \<open>
  On a device that accepts the read and the write, \<open>updateTask\<close> succeeds and changes
  nothing but the named fields of the tasks whose id matches: the collection keeps its
  length and order, every task with another id is the same as before, and in a task with
  the given id every field that the update object does not name reads as before. With the
  update \<^verbatim>\<open>{completed: true}\<close> the field \<open>completed\<close> of the matching task reads
  \<open>true\<close> afterwards.
\<close>

theorem updateTask_changes_only_given_fields:
  assumes io: "\<not> getItem_rejects s" "\<not> setItem_rejects s"
    and stored: "getTasks s = Inr tasks"
  shows "fst (updateTask taskId updates s) = Inr True
       \<and> (\<exists>tasks'. getTasks (snd (updateTask taskId updates s)) = Inr tasks'
            \<and> length tasks' = length tasks
            \<and> (\<forall>i<length tasks.
                  if strict_equals (get (tasks ! i) ''id'') taskId
                  then (\<forall>k. k \<notin> fst ` set updates \<longrightarrow> get (tasks' ! i) k = get (tasks ! i) k)
                     \<and> (updates = [(''completed'', Bool True)]
                          \<longrightarrow> get (tasks' ! i) ''completed'' = Bool True)
                  else tasks' ! i = tasks ! i))"
proof -
  let ?f = "\<lambda>task. if strict_equals (get task ''id'') taskId then spread task updates else task"
  let ?tasks' = "map (parse_object \<circ> stringify_object) (map ?f tasks)"
  from stored obtain ds where ds: "tasks = map parse_object ds"
    using getTasks_parsed by blast
  have upd: "updateTask taskId updates s
      = (Inr True, s\<lparr>items := (items s)(TASKS_STORAGE_KEY \<mapsto>
           Document (map stringify_object (map ?f tasks)))\<rparr>)"
    by (rule updateTask_stores [OF io(2) stored])
  have reread: "getTasks (snd (updateTask taskId updates s)) = Inr ?tasks'"
    using io(1) by (simp add: upd getTasks_stored)
  have each: "if strict_equals (get (tasks ! i) ''id'') taskId
      then (\<forall>k. k \<notin> fst ` set updates \<longrightarrow> get (?tasks' ! i) k = get (tasks ! i) k)
         \<and> (updates = [(''completed'', Bool True)] \<longrightarrow> get (?tasks' ! i) ''completed'' = Bool True)
      else ?tasks' ! i = tasks ! i" if i: "i < length tasks" for i
  proof -
    from i ds have nth: "tasks ! i = parse_object (ds ! i)" by simp
    show ?thesis
    proof (cases "strict_equals (get (tasks ! i) ''id'') taskId")
      case True
      with i have "?tasks' ! i = parse_object (stringify_object (spread (parse_object (ds ! i)) updates))"
        by (simp add: nth)
      then show ?thesis
        using True by (simp add: nth get_update_frame get_update_written)
    next
      case False
      with i have "?tasks' ! i = parse_object (stringify_object (parse_object (ds ! i)))"
        by (simp add: nth)
      then show ?thesis
        using False by (simp add: nth stringify_parse_object)
    qed
  qed
  have "length ?tasks' = length tasks" by simp
  with reread each have "\<exists>tasks'. getTasks (snd (updateTask taskId updates s)) = Inr tasks'
            \<and> length tasks' = length tasks
            \<and> (\<forall>i<length tasks.
                  if strict_equals (get (tasks ! i) ''id'') taskId
                  then (\<forall>k. k \<notin> fst ` set updates \<longrightarrow> get (tasks' ! i) k = get (tasks ! i) k)
                     \<and> (updates = [(''completed'', Bool True)]
                          \<longrightarrow> get (tasks' ! i) ''completed'' = Bool True)
                  else tasks' ! i = tasks ! i)"
    by blast
  moreover have "fst (updateTask taskId updates s) = Inr True"
    by (simp add: upd)
  ultimately show ?thesis by (rule conjI [rotated])
qed

theorem updateTask_changes_only_given_fields_witness:
  "getTasks plannerStorage = Inr [mathTask, historyTask]
   \<and> strict_equals (get mathTask ''id'') (Str ''m1'')
   \<and> \<not> strict_equals (get historyTask ''id'') (Str ''m1'')
   \<and> fst (updateTask (Str ''m1'') [(''completed'', Bool True)] plannerStorage) = Inr True
   \<and> (\<exists>tasks'. getTasks (snd (updateTask (Str ''m1'') [(''completed'', Bool True)] plannerStorage))
         = Inr tasks'
       \<and> length tasks' = 2
       \<and> get (tasks' ! 0) ''completed'' = Bool True
       \<and> get (tasks' ! 0) ''subject'' = Str ''Math''
       \<and> get (tasks' ! 0) ''studyTime'' = Num (Fin 2)
       \<and> tasks' ! 1 = historyTask)"
proof -
  have ids: "strict_equals (get mathTask ''id'') (Str ''m1'')"
      "\<not> strict_equals (get historyTask ''id'') (Str ''m1'')"
    by (simp_all add: strict_equals_def get_def mathTask_def historyTask_def)
  from updateTask_changes_only_given_fields [OF plannerStorage_accepts plannerStorage_tasks,
      of "Str ''m1''" "[(''completed'', Bool True)]"]
  obtain tasks' where ok: "fst (updateTask (Str ''m1'') [(''completed'', Bool True)] plannerStorage) = Inr True"
    and reread: "getTasks (snd (updateTask (Str ''m1'') [(''completed'', Bool True)] plannerStorage)) = Inr tasks'"
    and len: "length tasks' = length [mathTask, historyTask]"
    and each: "\<forall>i<length [mathTask, historyTask].
        if strict_equals (get ([mathTask, historyTask] ! i) ''id'') (Str ''m1'')
        then (\<forall>k. k \<notin> fst ` set [(''completed'', Bool True)]
                \<longrightarrow> get (tasks' ! i) k = get ([mathTask, historyTask] ! i) k)
           \<and> ([(''completed'', Bool True)] = [(''completed'', Bool True)]
                \<longrightarrow> get (tasks' ! i) ''completed'' = Bool True)
        else tasks' ! i = [mathTask, historyTask] ! i"
    by blast
  from each [THEN spec, of 0] ids(1)
  have first: "get (tasks' ! 0) ''completed'' = Bool True"
      "get (tasks' ! 0) ''subject'' = get mathTask ''subject''"
      "get (tasks' ! 0) ''studyTime'' = get mathTask ''studyTime''"
    by simp_all
  from each [THEN spec, of 1] ids(2) have second: "tasks' ! 1 = historyTask"
    by simp
  have "get mathTask ''subject'' = Str ''Math''" "get mathTask ''studyTime'' = Num (Fin 2)"
    by (simp_all add: get_def mathTask_def)
  with first second len reread ok ids plannerStorage_tasks show ?thesis
    by auto
qed

text \<open>
  On a device that accepts the read and the write, when no stored task has the given id,
  \<open>updateTask\<close> and \<open>deleteTask\<close> both report success and the collection read
  afterwards is the collection read before; where a collection was stored, the device
  state is the same as before.
\<close>

theorem not_found_is_successful_noop:
  assumes io: "\<not> getItem_rejects s" "\<not> setItem_rejects s"
    and stored: "getTasks s = Inr tasks"
    and absent: "\<forall>t\<in>set tasks. \<not> strict_equals (get t ''id'') taskId"
  shows "fst (updateTask taskId updates s) = Inr True
       \<and> getTasks (snd (updateTask taskId updates s)) = Inr tasks
       \<and> fst (deleteTask taskId s) = Inr True
       \<and> getTasks (snd (deleteTask taskId s)) = Inr tasks
       \<and> (\<forall>d. items s TASKS_STORAGE_KEY = Some (Document d)
            \<longrightarrow> snd (updateTask taskId updates s) = s \<and> snd (deleteTask taskId s) = s)"
proof -
  from stored obtain ds where ds: "tasks = map parse_object ds"
    using getTasks_parsed by blast
  have same: "map (\<lambda>task. if strict_equals (get task ''id'') taskId then spread task updates else task)
       tasks = tasks"
    using absent by (simp add: map_idI)
  have kept: "filter (\<lambda>task. \<not> strict_equals (get task ''id'') taskId) tasks = tasks"
    using absent by simp
  have written: "map stringify_object tasks = ds"
    unfolding ds by (simp add: stringify_parse_object map_idI)
  have upd: "updateTask taskId updates s
      = (Inr True, s\<lparr>items := (items s)(TASKS_STORAGE_KEY \<mapsto> Document ds)\<rparr>)"
    using updateTask_stores [OF io(2) stored, of taskId updates] by (simp only: same written)
  have del: "deleteTask taskId s
      = (Inr True, s\<lparr>items := (items s)(TASKS_STORAGE_KEY \<mapsto> Document ds)\<rparr>)"
    using deleteTask_stores [OF io(2) stored, of taskId] by (simp only: kept written)
  have reread: "getTasks (s\<lparr>items := (items s)(TASKS_STORAGE_KEY \<mapsto> Document ds)\<rparr>) = Inr tasks"
    using io(1) by (simp add: getTasks_stored ds)
  have unchanged: "s\<lparr>items := (items s)(TASKS_STORAGE_KEY \<mapsto> Document ds)\<rparr> = s"
    if "items s TASKS_STORAGE_KEY = Some (Document d)" for d
  proof -
    from that io(1) stored have "map parse_object d = map parse_object ds"
      by (simp add: getTasks_Document ds)
    then have "map stringify_object (map parse_object d) = map stringify_object (map parse_object ds)"
      by simp
    then have "d = ds" by (simp add: stringify_parse_object map_idI)
    with that show ?thesis by (simp add: fun_upd_idem)
  qed
  show ?thesis
    using upd del reread unchanged by simp
qed

theorem not_found_is_successful_noop_witness:
  "getTasks plannerStorage = Inr [mathTask, historyTask]
   \<and> \<not> strict_equals (get mathTask ''id'') (Str ''zz'')
   \<and> \<not> strict_equals (get historyTask ''id'') (Str ''zz'')
   \<and> fst (updateTask (Str ''zz'') [(''completed'', Bool True)] plannerStorage) = Inr True
   \<and> getTasks (snd (updateTask (Str ''zz'') [(''completed'', Bool True)] plannerStorage))
       = Inr [mathTask, historyTask]
   \<and> fst (deleteTask (Str ''zz'') plannerStorage) = Inr True
   \<and> getTasks (snd (deleteTask (Str ''zz'') plannerStorage)) = Inr [mathTask, historyTask]
   \<and> snd (updateTask (Str ''zz'') [(''completed'', Bool True)] plannerStorage) = plannerStorage
   \<and> snd (deleteTask (Str ''zz'') plannerStorage) = plannerStorage"
proof -
  have absent: "\<forall>t\<in>set [mathTask, historyTask]. \<not> strict_equals (get t ''id'') (Str ''zz'')"
    by (simp add: strict_equals_def get_def mathTask_def historyTask_def)
  have held: "items plannerStorage TASKS_STORAGE_KEY
      = Some (Document (map stringify_object [mathTask, historyTask]))"
    by (simp add: plannerStorage_def saveTasks_stores emptyStorage_accepts)
  note noop = not_found_is_successful_noop [OF plannerStorage_accepts plannerStorage_tasks absent,
      of "[(''completed'', Bool True)]"]
  from noop have same: "snd (updateTask (Str ''zz'') [(''completed'', Bool True)] plannerStorage)
        = plannerStorage"
      "snd (deleteTask (Str ''zz'') plannerStorage) = plannerStorage"
    using held by blast+
  from noop absent plannerStorage_tasks same show ?thesis by simp
qed

section \<open>Updating and deleting when the read is refused\<close>

text \<open>
  \<open>getTasks\<close> answers a refused read with the empty list, so the \<^verbatim>\<open>catch\<close> clauses of
  \<open>updateTask\<close> and \<open>deleteTask\<close> never see the failure: they map or filter the empty
  list, save it over the stored collection and report success.
\<close>

lemma getTasks_refused: "getItem_rejects s \<Longrightarrow> getTasks s = Inr []"
  by (simp add: getTasks_def getItem_def)

lemma updateTask_after_refused_read:
  assumes "getItem_rejects s" and "\<not> setItem_rejects s"
  shows "updateTask taskId updates s
     = (Inr True, s\<lparr>items := (items s)(TASKS_STORAGE_KEY \<mapsto> Document [])\<rparr>)"
  using updateTask_stores [OF assms(2) getTasks_refused [OF assms(1)], of taskId updates]
  by simp

lemma deleteTask_after_refused_read:
  assumes "getItem_rejects s" and "\<not> setItem_rejects s"
  shows "deleteTask taskId s
     = (Inr True, s\<lparr>items := (items s)(TASKS_STORAGE_KEY \<mapsto> Document [])\<rparr>)"
  using deleteTask_stores [OF assms(2) getTasks_refused [OF assms(1)], of taskId]
  by simp

lemma plannerStorage_holds:
  "items plannerStorage TASKS_STORAGE_KEY
     = Some (Document (map stringify_object [mathTask, historyTask]))"
  by (simp add: plannerStorage_def saveTasks_stores emptyStorage_accepts)

lemma unreadableStorage_state:
  "getItem_rejects unreadableStorage" "\<not> setItem_rejects unreadableStorage"
  "items unreadableStorage = items plannerStorage"
  by (simp_all add: unreadableStorage_def plannerStorage_accepts)

text \<open>
  Claim C2 says that \<open>updateTask\<close> with \<^verbatim>\<open>{completed: true}\<close> on a stored collection that
  contains the id changes only the \<open>completed\<close> field of that task and leaves every other
  task and the order as they were. On a device that holds the two example tasks, refuses
  the read and accepts the write, \<open>updateTask\<close> for the id of the first task reports
  success and the device then holds the empty collection: both tasks are lost.
\<close>

theorem updateTask_refused_read_empties_collection:
  "items unreadableStorage TASKS_STORAGE_KEY
     = Some (Document (map stringify_object [mathTask, historyTask]))
   \<and> strict_equals (get mathTask ''id'') (Str ''m1'')
   \<and> fst (updateTask (Str ''m1'') [(''completed'', Bool True)] unreadableStorage) = Inr True
   \<and> items (snd (updateTask (Str ''m1'') [(''completed'', Bool True)] unreadableStorage))
         TASKS_STORAGE_KEY = Some (Document [])
   \<and> getTasks ((snd (updateTask (Str ''m1'') [(''completed'', Bool True)] unreadableStorage))
         \<lparr>getItem_rejects := False\<rparr>) = Inr []"
proof -
  have run: "updateTask (Str ''m1'') [(''completed'', Bool True)] unreadableStorage
      = (Inr True, unreadableStorage\<lparr>items :=
           (items unreadableStorage)(TASKS_STORAGE_KEY \<mapsto> Document [])\<rparr>)"
    by (rule updateTask_after_refused_read [OF unreadableStorage_state(1,2)])
  have held: "items unreadableStorage TASKS_STORAGE_KEY
      = Some (Document (map stringify_object [mathTask, historyTask]))"
    by (simp add: unreadableStorage_state(3) plannerStorage_holds)
  have found: "strict_equals (get mathTask ''id'') (Str ''m1'')"
    by (simp add: strict_equals_def get_def mathTask_def)
  have reread: "getTasks ((snd (updateTask (Str ''m1'') [(''completed'', Bool True)] unreadableStorage))
         \<lparr>getItem_rejects := False\<rparr>) = Inr []"
    by (simp add: run getTasks_def getItem_def)
  show ?thesis
    by (intro conjI held found reread) (simp_all add: run)
qed

text \<open>
  Claim C4 says that \<open>updateTask\<close> and \<open>deleteTask\<close> for an id that no stored task has
  report success, given that the write succeeds, and leave the stored collection
  unchanged. On the same device, with an id that neither task has, both report success
  and the device then holds the empty collection.
\<close>

theorem not_found_refused_read_empties_collection:
  "items unreadableStorage TASKS_STORAGE_KEY
     = Some (Document (map stringify_object [mathTask, historyTask]))
   \<and> \<not> strict_equals (get mathTask ''id'') (Str ''zz'')
   \<and> \<not> strict_equals (get historyTask ''id'') (Str ''zz'')
   \<and> fst (updateTask (Str ''zz'') [(''completed'', Bool True)] unreadableStorage) = Inr True
   \<and> items (snd (updateTask (Str ''zz'') [(''completed'', Bool True)] unreadableStorage))
         TASKS_STORAGE_KEY = Some (Document [])
   \<and> fst (deleteTask (Str ''zz'') unreadableStorage) = Inr True
   \<and> items (snd (deleteTask (Str ''zz'') unreadableStorage)) TASKS_STORAGE_KEY
         = Some (Document [])"
proof -
  have upd: "updateTask (Str ''zz'') [(''completed'', Bool True)] unreadableStorage
      = (Inr True, unreadableStorage\<lparr>items :=
           (items unreadableStorage)(TASKS_STORAGE_KEY \<mapsto> Document [])\<rparr>)"
    by (rule updateTask_after_refused_read [OF unreadableStorage_state(1,2)])
  have del: "deleteTask (Str ''zz'') unreadableStorage
      = (Inr True, unreadableStorage\<lparr>items :=
           (items unreadableStorage)(TASKS_STORAGE_KEY \<mapsto> Document [])\<rparr>)"
    by (rule deleteTask_after_refused_read [OF unreadableStorage_state(1,2)])
  have held: "items unreadableStorage TASKS_STORAGE_KEY
      = Some (Document (map stringify_object [mathTask, historyTask]))"
    by (simp add: unreadableStorage_state(3) plannerStorage_holds)
  have absent: "\<not> strict_equals (get mathTask ''id'') (Str ''zz'')"
      "\<not> strict_equals (get historyTask ''id'') (Str ''zz'')"
    by (simp_all add: strict_equals_def get_def mathTask_def historyTask_def)
  show ?thesis
    by (intro conjI held absent) (simp_all add: upd del)
qed

section \<open>Sorting by priority\<close>

lemma priorityOf_textual:
  "textual_priority t \<Longrightarrow> \<exists>m. priorityOf t = Inr m"
  by (cases "get t ''priority''") (simp_all add: textual_priority_def priorityOf_def)

lemma comparePriority_textual:
  "textual_priority a \<Longrightarrow> textual_priority b \<Longrightarrow> \<exists>v. comparePriority a b = Inr v"
  using priorityOf_textual [of a] priorityOf_textual [of b]
  by (auto simp: comparePriority_def)

lemma insert_sorted_mset:
  assumes "\<forall>y\<in>set ys. \<exists>v. comparefn x y = Inr v"
  shows "\<exists>zs. insert_sorted comparefn x ys = Inr zs \<and> mset zs = add_mset x (mset ys)"
  using assms
proof (induction ys)
  case Nil
  then show ?case by simp
next
  case (Cons y ys)
  then obtain v where v: "comparefn x y = Inr v" by auto
  from Cons obtain zs where zs: "insert_sorted comparefn x ys = Inr zs" "mset zs = add_mset x (mset ys)"
    by auto
  show ?case
    by (cases "positive v") (simp_all add: v zs)
qed

lemma Array_sort_mset:
  assumes "\<forall>x\<in>set xs. \<forall>y\<in>set xs. \<exists>v. comparefn x y = Inr v"
  shows "\<exists>ys. Array_sort comparefn xs = Inr ys \<and> mset ys = mset xs"
  using assms
proof (induction xs)
  case Nil
  then show ?case by simp
next
  case (Cons x xs)
  then obtain ys where ys: "Array_sort comparefn xs = Inr ys" "mset ys = mset xs"
    by auto
  then have "set ys = set xs" by (metis set_mset_mset)
  with Cons.prems have "\<forall>y\<in>set ys. \<exists>v. comparefn x y = Inr v" by simp
  from insert_sorted_mset [of ys comparefn x, OF this] ys show ?case by auto
qed

lemma priorityList_textual: "list_all textual_priority priorityList"
  by (simp add: priorityList_def priorityTask_def textual_priority_def get_def)

lemma priorityList_sorted:
  "sortByPriority 0 [priorityList] =
     Inr (1, [priorityList, [priorityTask ''t2'' ''High'', priorityTask ''t4'' ''High'',
                              priorityTask ''t3'' ''Medium'', priorityTask ''t1'' ''Low'']])"
  by code_simp

lemma insert_sorted_result_mset:
  "insert_sorted comparefn x ys = Inr zs \<Longrightarrow> mset zs = add_mset x (mset ys)"
proof (induction ys arbitrary: zs)
  case Nil
  then show ?case by auto
next
  case (Cons y ys)
  then show ?case
    by (auto split: sum.splits if_splits)
qed

lemma Array_sort_result_mset:
  "Array_sort comparefn xs = Inr ys \<Longrightarrow> mset ys = mset xs"
proof (induction xs arbitrary: ys)
  case Nil
  then show ?case by simp
next
  case (Cons x xs)
  then show ?case
    by (auto split: sum.splits dest: insert_sorted_result_mset)
qed

lemma Array_sort_textual:
  assumes "list_all textual_priority xs"
  shows "\<exists>ys. Array_sort comparePriority xs = Inr ys"
proof -
  have "\<forall>x\<in>set xs. \<forall>y\<in>set xs. \<exists>v. comparePriority x y = Inr v"
    using assms by (simp add: list_all_iff comparePriority_textual)
  from Array_sort_mset [OF this] show ?thesis by blast
qed

text \<open>
  Claim C9. Whenever \<open>sortByPriority\<close> returns, the array it returns is a new one that
  holds exactly the tasks of the input, each as often as the input does and none of them
  changed, and the input array and every other array are as they were. It returns for
  every array of tasks whose priorities are strings or absent.
\<close>

theorem sortByPriority_permutes_a_copy:
  assumes "tasks < length h"
  shows "(list_all textual_priority (h ! tasks)
           \<longrightarrow> (\<exists>sortedRef h'. sortByPriority tasks h = Inr (sortedRef, h')))
       \<and> (\<forall>sortedRef h'. sortByPriority tasks h = Inr (sortedRef, h')
           \<longrightarrow> sortedRef \<noteq> tasks \<and> sortedRef < length h'
             \<and> mset (h' ! sortedRef) = mset (h ! tasks)
             \<and> (\<forall>a<length h. h' ! a = h ! a))"
proof (intro conjI impI allI)
  assume "list_all textual_priority (h ! tasks)"
  then obtain ys where "Array_sort comparePriority (h ! tasks) = Inr ys"
    using Array_sort_textual by blast
  with assms show "\<exists>sortedRef h'. sortByPriority tasks h = Inr (sortedRef, h')"
    by (simp add: sortByPriority_def Let_def)
next
  fix sortedRef h'
  assume run: "sortByPriority tasks h = Inr (sortedRef, h')"
  then obtain ys where ys: "Array_sort comparePriority (h ! tasks) = Inr ys"
    and r: "sortedRef = length h" and h': "h' = (h @ [h ! tasks])[length h := ys]"
    using assms by (auto simp: sortByPriority_def Let_def split: sum.splits)
  from ys have perm: "mset ys = mset (h ! tasks)" by (rule Array_sort_result_mset)
  show "sortedRef \<noteq> tasks" using assms r by simp
  show "sortedRef < length h'" by (simp add: r h')
  show "mset (h' ! sortedRef) = mset (h ! tasks)" by (simp add: r h' perm)
  show "\<And>a. a < length h \<Longrightarrow> h' ! a = h ! a" by (simp add: h' nth_append)
qed

theorem sortByPriority_permutes_a_copy_witness:
  "list_all textual_priority priorityList
   \<and> (\<exists>sortedRef h'. sortByPriority 0 [priorityList] = Inr (sortedRef, h')
         \<and> sortedRef \<noteq> 0 \<and> mset (h' ! sortedRef) = mset priorityList \<and> h' ! 0 = priorityList)"
proof -
  have len: "0 < length [priorityList]" by simp
  have textual: "list_all textual_priority ([priorityList] ! 0)"
    using priorityList_textual by simp
  note copy = sortByPriority_permutes_a_copy [OF len]
  from copy [THEN conjunct1, rule_format, OF textual]
  obtain sortedRef h' where run: "sortByPriority 0 [priorityList] = Inr (sortedRef, h')"
    by blast
  from copy [THEN conjunct2, rule_format, OF run]
  have "sortedRef \<noteq> 0" "mset (h' ! sortedRef) = mset priorityList" "h' ! 0 = priorityList"
    by simp_all
  with run priorityList_textual show ?thesis by blast
qed

text \<open>
  Where no priority names a member of \<^verbatim>\<open>Object.prototype\<close>, the comparator ranks a task
  as the specification does, and the result is the stable sort by that rank.
\<close>

lemma priorityOf_spec_rank:
  assumes "textual_priority t" and "\<not> shadows_prototype t"
  shows "priorityOf t = Inr (Rank (spec_rank t))"
proof (cases "get t ''priority''")
  case (Str s)
  with assms(2) have "toLowerCase s \<notin> set Object_prototype"
    by (simp add: shadows_prototype_def)
  with Str show ?thesis
    by (simp add: priorityOf_def spec_rank_def property_key_def priorityOrder_def or_4_def)
qed (use assms(1) in \<open>simp_all add: textual_priority_def priorityOf_def spec_rank_def property_key_def
      priorityOrder_def or_4_def Object_prototype_def\<close>)

lemma insert_sorted_insort_key:
  assumes "\<forall>t\<in>set (x # ys). priorityOf t = Inr (Rank (spec_rank t))"
  shows "insert_sorted comparePriority x ys = Inr (insort_key spec_rank x ys)"
  using assms by (induction ys) (auto simp: comparePriority_def)

lemma Array_sort_sort_key:
  assumes "\<forall>t\<in>set xs. priorityOf t = Inr (Rank (spec_rank t))"
  shows "Array_sort comparePriority xs = Inr (sort_key spec_rank xs)"
  using assms
proof (induction xs)
  case Nil
  then show ?case by simp
next
  case (Cons x xs)
  then have "Array_sort comparePriority xs = Inr (sort_key spec_rank xs)" by simp
  moreover have "\<forall>t\<in>set (x # sort_key spec_rank xs). priorityOf t = Inr (Rank (spec_rank t))"
    using Cons.prems by simp
  ultimately show ?case
    by (simp add: insert_sorted_insort_key)
qed

lemma sortByPriority_stable_sort:
  assumes "tasks < length h"
    and "\<forall>t\<in>set (h ! tasks). textual_priority t \<and> \<not> shadows_prototype t"
  shows "\<exists>sortedRef h'. sortByPriority tasks h = Inr (sortedRef, h')
     \<and> h' ! sortedRef = sort_key spec_rank (h ! tasks)
     \<and> sorted (map spec_rank (h' ! sortedRef))
     \<and> (\<forall>r. filter (\<lambda>t. spec_rank t = r) (h' ! sortedRef) = filter (\<lambda>t. spec_rank t = r) (h ! tasks))"
proof -
  have "Array_sort comparePriority (h ! tasks) = Inr (sort_key spec_rank (h ! tasks))"
    using assms(2) by (intro Array_sort_sort_key) (simp add: priorityOf_spec_rank)
  with assms(1) have "sortByPriority tasks h
      = Inr (length h, (h @ [h ! tasks])[length h := sort_key spec_rank (h ! tasks)])"
    by (simp add: sortByPriority_def Let_def)
  then show ?thesis
    by (simp add: sort_key_stable)
qed

lemma priorityOf_ranks:
  "(toLowerCase s = ''high'' \<longrightarrow> priorityOf (set_prop ''priority'' (Str s) t) = Inr (Rank 1))
   \<and> (toLowerCase s = ''medium'' \<longrightarrow> priorityOf (set_prop ''priority'' (Str s) t) = Inr (Rank 2))
   \<and> (toLowerCase s = ''low'' \<longrightarrow> priorityOf (set_prop ''priority'' (Str s) t) = Inr (Rank 3))
   \<and> (toLowerCase s \<notin> {''high'', ''medium'', ''low''} \<union> set Object_prototype
        \<longrightarrow> priorityOf (set_prop ''priority'' (Str s) t) = Inr (Rank 4))
   \<and> priorityOf (set_prop ''priority'' Null t) = Inr (Rank 4)
   \<and> priorityOf (set_prop ''priority'' Undefined t) = Inr (Rank 4)
   \<and> (map_of t ''priority'' = None \<longrightarrow> priorityOf t = Inr (Rank 4))"
proof -
  have "get (set_prop ''priority'' v t) ''priority'' = v" for v
    using get_own [of "''priority''" "set_prop ''priority'' v t"]
    by (simp add: own_set_prop_same get_def)
  then show ?thesis
    by (simp add: priorityOf_def get_def property_key_def priorityOrder_def or_4_def Object_prototype_def)
qed

text \<open>
  \<open>getPriorityColor\<close> classifies a priority as the specification ranks it, for every
  string: its \<^verbatim>\<open>switch\<close> has no inherited labels.
\<close>

lemma getPriorityColor_by_spec_rank:
  assumes "textual_priority t"
  shows "getPriorityColor (get t ''priority'')
     = Inr (if spec_rank t = 1 then ''#FF4757''
            else if spec_rank t = 2 then ''#FFA502''
            else if spec_rank t = 3 then ''#2ED573''
            else ''#747D8C'')"
  using assms
  by (cases "get t ''priority''")
    (simp_all add: textual_priority_def getPriorityColor_def spec_rank_def)

lemma getPriorityColor_constructor:
  "getPriorityColor (Str ''constructor'') = Inr ''#747D8C''"
  by code_simp

text \<open>
  Claim C3 says that \<open>sortByPriority\<close> sorts every list by the rank High 1, Medium 2,
  Low 3, anything else 4. A task whose priority is the string \<^verbatim>\<open>constructor\<close> has rank 4
  by that rule and should follow a High task. The code leaves it in front: the lookup
  finds \<^verbatim>\<open>Object.prototype.constructor\<close>, the difference of the two priorities is NaN,
  and \<^verbatim>\<open>sort\<close> takes the two tasks as equal.
\<close>

theorem sortByPriority_inherited_key_unsorted:
  "sortByPriority 0 [[priorityTask ''t1'' ''constructor'', priorityTask ''t2'' ''High'']]
     = Inr (1, [[priorityTask ''t1'' ''constructor'', priorityTask ''t2'' ''High''],
                [priorityTask ''t1'' ''constructor'', priorityTask ''t2'' ''High'']])
   \<and> spec_rank (priorityTask ''t1'' ''constructor'') = 4
   \<and> spec_rank (priorityTask ''t2'' ''High'') = 1"
  by code_simp

text \<open>
  Claim C10 says that every unrecognized priority string gets rank 4. The strings
  \<^verbatim>\<open>constructor\<close> and \<^verbatim>\<open>__proto__\<close>, in any capitalization, do not: the value the code
  computes for them is a member of \<^verbatim>\<open>Object.prototype\<close>, and comparing such a task with
  any other gives NaN. Another unrecognized string gets 4.
\<close>

theorem priorityOf_inherited_key_not_4:
  "priorityOf (priorityTask ''t1'' ''constructor'') = Inr Prototype_member
   \<and> priorityOf (priorityTask ''t1'' ''Constructor'') = Inr Prototype_member
   \<and> priorityOf (priorityTask ''t1'' ''__proto__'') = Inr Prototype_member
   \<and> priorityOf (priorityTask ''t1'' ''urgent'') = Inr (Rank 4)
   \<and> comparePriority (priorityTask ''t1'' ''constructor'') (priorityTask ''t2'' ''High'') = Inr NaN
   \<and> comparePriority (priorityTask ''t2'' ''High'') (priorityTask ''t1'' ''constructor'') = Inr NaN"
  by code_simp

section \<open>Rounding to binary64\<close>

lemma round_half_even_error: "\<bar>of_int (round_half_even x) - x\<bar> \<le> 1 / 2"
proof -
  have "of_int \<lfloor>x\<rfloor> \<le> x" "x < of_int \<lfloor>x\<rfloor> + 1" by linarith+
  then show ?thesis
    by (auto simp: round_half_even_def Let_def abs_le_iff)
qed

lemma exponent_of_bounds:
  assumes "0 < x"
  shows "2 powi (exponent_of x) \<le> x" and "x < 2 powi (exponent_of x + 1)"
proof -
  obtain a b where ab: "quotient_of x = (a, b)" by (cases "quotient_of x")
  then have b: "0 < b" and x: "x = of_int a / of_int b"
    by (simp_all add: quotient_of_denom_pos quotient_of_div)
  with assms have a: "0 < a"
    by (simp add: zero_less_divide_iff)
  define la where "la = floorlog 2 (nat a)"
  define lb where "lb = floorlog 2 (nat b)"
  define d where "d = int la - int lb"
  have e: "exponent_of x = (if 2 powi d \<le> x then d else d - 1)"
    by (simp add: exponent_of_def ab d_def la_def lb_def)
  from a have abounds: "2 ^ (la - 1) \<le> nat a" "nat a < 2 ^ la"
    using floorlog_bounds [of "nat a" 2] by (simp_all add: la_def)
  from b have bbounds: "2 ^ (lb - 1) \<le> nat b" "nat b < 2 ^ lb"
    using floorlog_bounds [of "nat b" 2] by (simp_all add: lb_def)
  from a have la: "0 < la" by (simp add: la_def floorlog_def)
  from b have lb: "0 < lb" by (simp add: lb_def floorlog_def)
  have ra: "(2::rat) ^ (la - 1) \<le> of_int a" "of_int a < (2::rat) ^ la"
  proof -
    from abounds(1) have "int (2 ^ (la - 1)) \<le> a" using a by linarith
    then have "(of_int (int (2 ^ (la - 1))) :: rat) \<le> of_int a" by (simp only: of_int_le_iff)
    then show "(2::rat) ^ (la - 1) \<le> of_int a" by simp
    from abounds(2) have "a < int (2 ^ la)" using a by linarith
    then have "(of_int a :: rat) < of_int (int (2 ^ la))" by (simp only: of_int_less_iff)
    then show "of_int a < (2::rat) ^ la" by simp
  qed
  have rb: "(2::rat) ^ (lb - 1) \<le> of_int b" "of_int b < (2::rat) ^ lb"
  proof -
    from bbounds(1) have "int (2 ^ (lb - 1)) \<le> b" using b by linarith
    then have "(of_int (int (2 ^ (lb - 1))) :: rat) \<le> of_int b" by (simp only: of_int_le_iff)
    then show "(2::rat) ^ (lb - 1) \<le> of_int b" by simp
    from bbounds(2) have "b < int (2 ^ lb)" using b by linarith
    then have "(of_int b :: rat) < of_int (int (2 ^ lb))" by (simp only: of_int_less_iff)
    then show "of_int b < (2::rat) ^ lb" by simp
  qed
  have rbpos: "(0::rat) < of_int b" using b by simp
  have upper: "x < 2 powi (d + 1)"
  proof -
    have "2 powi (d + 1) = (2::rat) ^ la / 2 ^ (lb - 1)"
    proof -
      have "d + 1 = int la - int (lb - 1)" using lb by (simp add: d_def)
      then show ?thesis by (simp add: power_int_diff)
    qed
    moreover have "of_int a / of_int b < (2::rat) ^ la / 2 ^ (lb - 1)"
      using ra(2) rb(1) rbpos a by (intro frac_less) simp_all
    ultimately show ?thesis by (simp add: x)
  qed
  have lower: "2 powi (d - 1) < x"
  proof -
    have "2 powi (d - 1) = (2::rat) ^ (la - 1) / 2 ^ lb"
    proof -
      have "d - 1 = int (la - 1) - int lb" using la by (simp add: d_def)
      then show ?thesis by (simp add: power_int_diff)
    qed
    moreover have "(2::rat) ^ (la - 1) / 2 ^ lb < of_int a / of_int b"
      using ra(1) rb(2) rbpos by (intro frac_less2) simp_all
    ultimately show ?thesis by (simp add: x)
  qed
  show "2 powi (exponent_of x) \<le> x"
    using lower by (simp add: e)
  show "x < 2 powi (exponent_of x + 1)"
    using upper by (simp add: e)
qed

lemma exponent_of_unique:
  assumes "2 powi e \<le> x" and "x < 2 powi (e + 1)"
  shows "exponent_of x = e"
proof -
  have pos: "0 < x" using assms(1) by (rule less_le_trans [rotated]) simp
  note b = exponent_of_bounds [OF pos]
  have "\<not> e < exponent_of x"
  proof
    assume "e < exponent_of x"
    then have "(2::rat) powi (e + 1) \<le> 2 powi (exponent_of x)"
      by (intro power_int_increasing) simp_all
    with b(1) assms(2) show False by linarith
  qed
  moreover have "\<not> exponent_of x < e"
  proof
    assume "exponent_of x < e"
    then have "(2::rat) powi (exponent_of x + 1) \<le> 2 powi e"
      by (intro power_int_increasing) simp_all
    with b(2) assms(1) show False by linarith
  qed
  ultimately show ?thesis by simp
qed

lemma exponent_of_normal:
  assumes "2 powi (- 1022) \<le> x"
  shows "- 1022 \<le> exponent_of x"
proof (rule ccontr)
  assume "\<not> - 1022 \<le> exponent_of x"
  then have "exponent_of x + 1 \<le> - 1022" by simp
  then have "(2::rat) powi (exponent_of x + 1) \<le> 2 powi (- 1022)"
    by (intro power_int_increasing) simp_all
  moreover have "0 < x" using assms by (rule less_le_trans [rotated]) simp
  ultimately show False
    using exponent_of_bounds(2) [of x] assms by linarith
qed

text \<open>In the normal range the relative error of one rounding is at most \<open>1 / 2 ^ 53\<close>.\<close>

lemma binary64_error:
  assumes "2 powi (- 1022) \<le> x"
  shows "\<bar>binary64 x - x\<bar> \<le> x / 2 ^ 53"
proof -
  have pos: "0 < x" using assms by (rule less_le_trans [rotated]) simp
  define e where "e = exponent_of x"
  define ulp :: rat where "ulp = 2 powi (e - 52)"
  have ulp_pos: "0 < ulp" by (simp add: ulp_def)
  have "max e (- 1022) = e"
    using exponent_of_normal [OF assms] by (simp add: e_def)
  with pos have val: "binary64 x = of_int (round_half_even (x / ulp)) * ulp"
    by (simp add: binary64_def Let_def e_def ulp_def)
  have "\<bar>binary64 x - x\<bar> = \<bar>of_int (round_half_even (x / ulp)) - x / ulp\<bar> * ulp"
  proof -
    have "binary64 x - x = (of_int (round_half_even (x / ulp)) - x / ulp) * ulp"
      using ulp_pos by (simp add: val field_simps)
    then show ?thesis using ulp_pos by (simp add: abs_mult)
  qed
  also have "\<dots> \<le> 1 / 2 * ulp"
    using ulp_pos by (intro mult_right_mono round_half_even_error) simp
  also have "1 / 2 * ulp = 2 powi e / 2 ^ 53"
  proof -
    have "ulp = 2 powi e / 2 powi 52" by (simp add: ulp_def power_int_diff)
    then show ?thesis by simp
  qed
  also have "\<dots> \<le> x / 2 ^ 53"
    using exponent_of_bounds(1) [OF pos] by (simp add: e_def divide_right_mono)
  finally show ?thesis .
qed

lemma binary64_zero: "binary64 0 = 0"
  by (simp add: binary64_def)

lemma binary64_one: "binary64 1 = 1"
  by code_simp

lemma binary64_hundred: "binary64 100 = 100"
  by code_simp

text \<open>
  The quotient of two array lengths times 100, as the code computes it, differs from
  the exact percentage by less than the distance between two neighbouring multiples of
  \<open>1 / (2 n)\<close>.
\<close>

lemma percent_error:
  fixes c n :: nat
  assumes "0 < c" and "c \<le> n" and "n < 2 ^ 32"
  shows "\<bar>binary64 (binary64 (of_nat c / of_nat n) * 100) - 100 * of_nat c / of_nat n\<bar>
           < 1 / (2 * of_nat n)"
proof -
  define q :: rat where "q = of_nat c / of_nat n"
  define y where "y = binary64 q"
  define p where "p = y * 100"
  have npos: "(0::rat) < of_nat n" using assms by simp
  have nsmall: "(of_nat n :: rat) < 2 ^ 32"
  proof -
    have "(of_nat n :: rat) < of_nat (2 ^ 32)" using assms(3) by (simp only: of_nat_less_iff)
    then show ?thesis by simp
  qed
  have q_le: "q \<le> 1" using assms npos by (simp add: q_def)
  have q_ge: "1 / 2 ^ 32 \<le> q"
  proof -
    have "(1::rat) \<le> of_nat c" using assms(1) by simp
    then have "1 / 2 ^ 32 \<le> (of_nat c :: rat) / 2 ^ 32" by (simp add: divide_right_mono)
    also have "\<dots> \<le> of_nat c / of_nat n"
      using nsmall npos assms(1) by (intro divide_left_mono) simp_all
    finally show ?thesis by (simp add: q_def)
  qed
  have tiny: "(2::rat) powi (- 1022) \<le> 1 / 2 ^ 33"
  proof -
    have "(2::rat) powi (- 1022) \<le> 2 powi (- 33)" by (intro power_int_increasing) simp_all
    then show ?thesis by (simp add: power_int_minus field_simps)
  qed
  have q_normal: "2 powi (- 1022) \<le> q" using tiny q_ge by simp
  have y_err: "\<bar>y - q\<bar> \<le> q / 2 ^ 53"
    unfolding y_def by (rule binary64_error [OF q_normal])
  have q_pos: "0 < q" using q_ge by (rule less_le_trans [rotated]) simp
  have "q / 2 ^ 53 \<le> q / 2" using q_pos by simp
  with y_err have "\<bar>y - q\<bar> \<le> q / 2" by linarith
  then have y_bounds: "q / 2 \<le> y" "y \<le> 2 * q"
    using q_pos by linarith+
  have p_normal: "2 powi (- 1022) \<le> p"
    using y_bounds(1) q_ge tiny by (simp add: p_def)
  have p_err: "\<bar>binary64 p - p\<bar> \<le> p / 2 ^ 53"
    by (rule binary64_error [OF p_normal])
  have "\<bar>binary64 p - 100 * q\<bar> \<le> \<bar>binary64 p - p\<bar> + \<bar>p - 100 * q\<bar>" by simp
  also have "\<dots> \<le> p / 2 ^ 53 + 100 * (q / 2 ^ 53)"
  proof -
    have "p - 100 * q = 100 * (y - q)" by (simp add: p_def algebra_simps)
    then have "\<bar>p - 100 * q\<bar> = 100 * \<bar>y - q\<bar>" by (simp only: abs_mult abs_numeral)
    also have "\<dots> \<le> 100 * (q / 2 ^ 53)"
      using y_err by (intro mult_left_mono) simp_all
    finally show ?thesis using p_err by (intro add_mono)
  qed
  also have "\<dots> \<le> 300 * q / 2 ^ 53"
  proof -
    have "p \<le> 200 * q" using y_bounds(2) by (simp add: p_def)
    then have "p / 2 ^ 53 \<le> 200 * q / 2 ^ 53" by (intro divide_right_mono) simp_all
    then show ?thesis by linarith
  qed
  also have "\<dots> \<le> 300 / 2 ^ 53" using q_le by simp
  also have "\<dots> < 1 / 2 ^ 33" by simp
  also have "\<dots> < 1 / (2 * of_nat n)"
    using nsmall npos by (simp add: field_simps)
  finally show ?thesis by (simp add: p_def y_def q_def)
qed

text \<open>
  A value that close to \<open>v\<close> rounds as \<open>v\<close> does, unless \<open>v\<close> lies exactly
  halfway between two integers; then it may round to the lower one.
\<close>

lemma Math_round_near:
  fixes n :: nat and m :: int
  assumes n: "0 < n"
    and w: "v + 1 / 2 = of_int m / (2 * of_nat n)"
    and near: "\<bar>y - v\<bar> < 1 / (2 * of_nat n)"
  shows "Math_round y = \<lfloor>v + 1 / 2\<rfloor>
       \<or> (Math_round y = \<lfloor>v + 1 / 2\<rfloor> - 1 \<and> of_int \<lfloor>v + 1 / 2\<rfloor> = v + 1 / 2)"
proof -
  define k where "k = \<lfloor>v + 1 / 2\<rfloor>"
  define N :: rat where "N = 2 * of_nat n"
  have N: "1 < N" "0 < N" using n by (simp_all add: N_def)
  then have N1: "1 / N < 1" by simp
  have k: "of_int k \<le> v + 1 / 2" "v + 1 / 2 < of_int k + 1"
    unfolding k_def by linarith+
  from near have y: "v - 1 / N < y" "y < v + 1 / N"
    unfolding N_def by linarith+
  show ?thesis
  proof (cases "of_int k = v + 1 / 2")
    case True
    show ?thesis
    proof (cases "of_int k \<le> y + 1 / 2")
      case above: True
      have "y + 1 / 2 < of_int k + 1" using y(2) True N1 by linarith
      with above have "\<lfloor>y + 1 / 2\<rfloor> = k" by (intro floor_unique)
      then show ?thesis by (simp add: Math_round_def k_def)
    next
      case False
      then have "y + 1 / 2 < of_int (k - 1) + 1" by simp
      moreover have "of_int (k - 1) \<le> y + 1 / 2" using y(1) True N1 by simp
      ultimately have "\<lfloor>y + 1 / 2\<rfloor> = k - 1" by (intro floor_unique)
      with True show ?thesis by (simp add: Math_round_def k_def)
    qed
  next
    case False
    with k(1) have strict: "of_int k < v + 1 / 2" by simp
    have mN: "of_int m = (v + 1 / 2) * N" using N(2) by (simp add: w N_def)
    have "of_int (k * (2 * int n)) < (of_int m :: rat)"
      using strict N(2) by (simp add: mN N_def)
    then have "k * (2 * int n) < m" by (simp only: of_int_less_iff)
    then have "k * (2 * int n) + 1 \<le> m" by simp
    then have "(of_int (k * (2 * int n) + 1) :: rat) \<le> of_int m" by (simp only: of_int_le_iff)
    then have "of_int k * N + 1 \<le> (v + 1 / 2) * N" by (simp add: mN N_def)
    then have low: "of_int k + 1 / N \<le> v + 1 / 2"
      using N(2) by (simp add: field_simps)
    have "(of_int m :: rat) < of_int ((k + 1) * (2 * int n))"
      using k(2) N(2) by (simp add: mN N_def)
    then have "m < (k + 1) * (2 * int n)" by (simp only: of_int_less_iff)
    then have "m \<le> (k + 1) * (2 * int n) - 1" by simp
    then have "(of_int m :: rat) \<le> of_int ((k + 1) * (2 * int n) - 1)" by (simp only: of_int_le_iff)
    then have "(v + 1 / 2) * N \<le> (of_int k + 1) * N - 1" by (simp add: mN N_def)
    then have high: "v + 1 / 2 \<le> of_int k + 1 - 1 / N"
      using N(2) by (simp add: field_simps)
    have "of_int k \<le> y + 1 / 2" using low y(1) by linarith
    moreover have "y + 1 / 2 < of_int k + 1" using high y(2) by linarith
    ultimately have "\<lfloor>y + 1 / 2\<rfloor> = k" by (intro floor_unique)
    then show ?thesis by (simp add: Math_round_def k_def)
  qed
qed

lemma floor_half: "\<lfloor>(1::rat) / 2\<rfloor> = 0"
  by (rule floor_unique) simp_all

lemma Math_round_zero: "Math_round 0 = 0"
  by (simp add: Math_round_def floor_half)

lemma Math_round_hundred: "Math_round 100 = 100"
  unfolding Math_round_def by (rule floor_unique) simp_all

section \<open>The progress percentage\<close>

lemma completedCount_le: "completedCount ts \<le> length ts"
  by (simp add: completedCount_def)

lemma calculateProgress_nonempty:
  "ts \<noteq> [] \<Longrightarrow> calculateProgress (Some ts)
     = Math_round (binary64 (binary64 (of_nat (completedCount ts) / of_nat (length ts)) * 100))"
  by (simp add: calculateProgress_def completedCount_def)

lemma calculateProgress_none_completed:
  assumes "completedCount ts = 0"
  shows "calculateProgress (Some ts) = 0"
proof (cases "ts = []")
  case True
  then show ?thesis by (simp add: calculateProgress_def)
next
  case False
  with assms show ?thesis
    by (simp add: calculateProgress_nonempty binary64_zero Math_round_zero)
qed

lemma calculateProgress_all_completed:
  "ts \<noteq> [] \<Longrightarrow> completedCount ts = length ts \<Longrightarrow> calculateProgress (Some ts) = 100"
  by (simp add: calculateProgress_nonempty binary64_one binary64_hundred Math_round_hundred)

lemma calculateProgress_nearest:
  assumes "ts \<noteq> []" and "length ts < 2 ^ 32"
  shows "calculateProgress (Some ts) = \<lfloor>exactPercent ts + 1 / 2\<rfloor>
       \<or> (calculateProgress (Some ts) = \<lfloor>exactPercent ts + 1 / 2\<rfloor> - 1
          \<and> of_int \<lfloor>exactPercent ts + 1 / 2\<rfloor> = exactPercent ts + 1 / 2)"
proof (cases "completedCount ts = 0")
  case True
  then show ?thesis
    by (simp add: calculateProgress_none_completed exactPercent_def floor_half)
next
  case False
  define c where "c = completedCount ts"
  define n where "n = length ts"
  have c: "0 < c" "c \<le> n" using False by (simp_all add: c_def n_def completedCount_le)
  have n: "0 < n" "n < 2 ^ 32" using assms by (simp_all add: n_def)
  have w: "exactPercent ts + 1 / 2 = of_int (200 * int c + int n) / (2 * of_nat n)"
    using n(1) by (simp add: exactPercent_def c_def n_def field_simps)
  have near: "\<bar>binary64 (binary64 (of_nat c / of_nat n) * 100) - exactPercent ts\<bar> < 1 / (2 * of_nat n)"
    using percent_error [OF c n(2)] by (simp add: exactPercent_def c_def n_def)
  from Math_round_near [OF n(1) w near] show ?thesis
    using assms(1) by (simp add: calculateProgress_nonempty c_def n_def)
qed

lemma exactPercent_range: "0 \<le> exactPercent ts" "exactPercent ts \<le> 100"
proof -
  show "0 \<le> exactPercent ts" by (simp add: exactPercent_def)
  have "(of_nat (completedCount ts) :: rat) \<le> of_nat (length ts)"
    using completedCount_le [of ts] by (simp only: of_nat_le_iff)
  then show "exactPercent ts \<le> 100"
    by (cases "ts = []") (simp_all add: exactPercent_def field_simps)
qed

text \<open>With 23 of 40 tasks completed the exact percentage is 57.5 and the code returns 57.\<close>

lemma binary64_23_40: "binary64 (23 / 40) = 2589569785738035 / 4503599627370496"
  by code_simp

lemma binary64_23_40_times_100:
  "binary64 (2589569785738035 / 4503599627370496 * 100) = 8092405580431359 / 140737488355328"
proof -
  have e: "exponent_of (64739244643450875 / 1125899906842624) = 5"
    by (rule exponent_of_unique) simp_all
  have r: "round_half_even (64739244643450875 / 8) = 8092405580431359" by code_simp
  show ?thesis by (simp add: binary64_def e r Let_def power_int_minus)
qed

lemma Math_round_23_40: "Math_round (binary64 (binary64 (23 / 40) * 100)) = 57"
proof -
  have "Math_round (8092405580431359 / 140737488355328) = 57" by code_simp
  then show ?thesis by (simp only: binary64_23_40 binary64_23_40_times_100)
qed

lemma fortyTasks_counts: "completedCount fortyTasks = 23" "length fortyTasks = 40" "fortyTasks \<noteq> []"
  by (simp_all add: fortyTasks_def completedCount_def doneTask_def mathTask_def historyTask_def get_def)

lemma fortyTasks_progress: "calculateProgress (Some fortyTasks) = 57"
proof -
  have "calculateProgress (Some fortyTasks) = Math_round (binary64 (binary64 (23 / 40) * 100))"
    using fortyTasks_counts by (simp add: calculateProgress_nonempty)
  then show ?thesis by (simp only: Math_round_23_40)
qed

lemma fortyTasks_exact: "exactPercent fortyTasks = 115 / 2"
  by (simp add: exactPercent_def fortyTasks_counts)

lemma Math_round_2300_40: "Math_round (binary64 (binary64 (100 * 23) / 40)) = 58"
proof -
  have a: "binary64 (100 * 23) = 2300" by code_simp
  have b: "binary64 (2300 / 40) = 115 / 2" by code_simp
  have c: "Math_round (115 / 2) = 58" by code_simp
  show ?thesis by (simp only: a b c)
qed

text \<open>
  Claim C5 says that the progress equals \<open>round(100 * completed / total)\<close> for every
  non-empty list. With 23 of 40 tasks completed that is the rounding of 57.5, which is
  58: rounding a tie up as \<^verbatim>\<open>Math.round\<close> does, rounding it to the even neighbour, or
  computing \<^verbatim>\<open>Math.round(100 * 23 / 40)\<close> in binary64. The code returns 57, since it
  rounds the quotient \<open>23 / 40\<close> to binary64 before it multiplies by 100 and the product
  falls just below 57.5.
\<close>

theorem calculateProgress_tie_counterexample:
  "completedCount fortyTasks = 23 \<and> length fortyTasks = 40
   \<and> calculateProgress (Some fortyTasks) = 57
   \<and> exactPercent fortyTasks = 115 / 2
   \<and> Math_round (exactPercent fortyTasks) = 58
   \<and> round_half_even (exactPercent fortyTasks) = 58
   \<and> Math_round (binary64 (binary64 (100 * 23) / 40)) = 58
   \<and> calculateProgress (Some fortyTasks) \<noteq> Math_round (exactPercent fortyTasks)"
proof -
  have up: "Math_round (exactPercent fortyTasks) = 58"
    unfolding fortyTasks_exact by code_simp
  have even: "round_half_even (exactPercent fortyTasks) = 58"
    unfolding fortyTasks_exact by code_simp
  have differ: "calculateProgress (Some fortyTasks) \<noteq> Math_round (exactPercent fortyTasks)"
    by (simp add: up fortyTasks_progress)
  show ?thesis
    by (intro conjI fortyTasks_counts fortyTasks_progress fortyTasks_exact up even
        Math_round_2300_40 differ)
qed

text \<open>
  Claim C5, amended. For every non-empty list of fewer than \<open>2 ^ 32\<close> tasks (the bound
  of an array's length) the progress is an integer nearest to the exact percentage: it
  equals the percentage rounded with ties going up, except that a percentage exactly
  halfway between two integers may be rounded down. It lies between 0 and 100, it is 0
  when no task is completed and 100 when all are. For the empty list, and for a missing
  list, it is 0.
\<close>

theorem calculateProgress_rounds_to_nearest:
  assumes "ts \<noteq> []" and "length ts < 2 ^ 32"
  shows "(calculateProgress (Some ts) = \<lfloor>exactPercent ts + 1 / 2\<rfloor>
          \<or> (calculateProgress (Some ts) = \<lfloor>exactPercent ts + 1 / 2\<rfloor> - 1
              \<and> of_int \<lfloor>exactPercent ts + 1 / 2\<rfloor> = exactPercent ts + 1 / 2))
       \<and> \<bar>of_int (calculateProgress (Some ts)) - exactPercent ts\<bar> \<le> 1 / 2
       \<and> 0 \<le> calculateProgress (Some ts) \<and> calculateProgress (Some ts) \<le> 100
       \<and> (completedCount ts = 0 \<longrightarrow> calculateProgress (Some ts) = 0)
       \<and> (completedCount ts = length ts \<longrightarrow> calculateProgress (Some ts) = 100)
       \<and> calculateProgress (Some []) = 0 \<and> calculateProgress None = 0"
proof -
  define r where "r = calculateProgress (Some ts)"
  define v where "v = exactPercent ts"
  have nearest: "r = \<lfloor>v + 1 / 2\<rfloor> \<or> (r = \<lfloor>v + 1 / 2\<rfloor> - 1 \<and> of_int \<lfloor>v + 1 / 2\<rfloor> = v + 1 / 2)"
    unfolding r_def v_def by (rule calculateProgress_nearest [OF assms])
  have fl: "of_int \<lfloor>v + 1 / 2\<rfloor> \<le> v + 1 / 2" "v + 1 / 2 < of_int \<lfloor>v + 1 / 2\<rfloor> + 1"
    by linarith+
  have dist: "\<bar>of_int r - v\<bar> \<le> 1 / 2"
  proof (cases "r = \<lfloor>v + 1 / 2\<rfloor>")
    case True
    with fl show ?thesis by linarith
  next
    case False
    with nearest have a: "r = \<lfloor>v + 1 / 2\<rfloor> - 1"
      and b: "of_int \<lfloor>v + 1 / 2\<rfloor> = v + 1 / 2" by blast+
    have "(of_int r :: rat) = of_int \<lfloor>v + 1 / 2\<rfloor> - 1"
      unfolding a by (simp only: of_int_diff of_int_1)
    with b have "of_int r = v - 1 / 2" by linarith
    then show ?thesis by simp
  qed
  have v: "0 \<le> v" "v \<le> 100" by (simp_all add: v_def exactPercent_range)
  have "- 1 < (of_int r :: rat)" "(of_int r :: rat) < 101"
    using dist v by linarith+
  then have "(of_int (- 1) :: rat) < of_int r" "(of_int r :: rat) < of_int 101"
    by simp_all
  then have "- 1 < r" "r < 101" by (simp_all only: of_int_less_iff)
  then have range: "0 \<le> r" "r \<le> 100" by simp_all
  have empty: "calculateProgress (Some []) = 0" "calculateProgress None = 0"
    by (simp_all add: calculateProgress_def)
  show ?thesis
    using nearest dist range empty calculateProgress_none_completed [of ts]
      calculateProgress_all_completed [OF assms(1)]
    unfolding r_def v_def by (intro conjI impI) simp_all
qed

theorem calculateProgress_rounds_to_nearest_witness:
  "fortyTasks \<noteq> [] \<and> length fortyTasks < 2 ^ 32
   \<and> \<bar>of_int (calculateProgress (Some fortyTasks)) - exactPercent fortyTasks\<bar> \<le> 1 / 2
   \<and> 0 \<le> calculateProgress (Some fortyTasks) \<and> calculateProgress (Some fortyTasks) \<le> 100
   \<and> calculateProgress (Some [doneTask, historyTask]) = 50
   \<and> calculateProgress (Some [historyTask]) = 0
   \<and> calculateProgress (Some [doneTask]) = 100"
proof -
  have small: "length fortyTasks < 2 ^ 32" by (simp add: fortyTasks_counts)
  note forty = calculateProgress_rounds_to_nearest [OF fortyTasks_counts(3) small]
  have none: "completedCount [historyTask] = 0"
    by (simp add: completedCount_def historyTask_def get_def)
  have one: "calculateProgress (Some [historyTask]) = 0"
    using calculateProgress_rounds_to_nearest [of "[historyTask]"] none by simp
  have every: "completedCount [doneTask] = length [doneTask]"
    by (simp add: completedCount_def doneTask_def mathTask_def get_def)
  have all: "calculateProgress (Some [doneTask]) = 100"
    using calculateProgress_rounds_to_nearest [of "[doneTask]"] every by simp
  have half: "calculateProgress (Some [doneTask, historyTask]) = 50"
  proof -
    have "completedCount [doneTask, historyTask] = 1"
      by (simp add: completedCount_def doneTask_def mathTask_def historyTask_def get_def)
    then have ex: "exactPercent [doneTask, historyTask] = 50" by (simp add: exactPercent_def)
    have fl: "\<lfloor>(50::rat) + 1 / 2\<rfloor> = 50" by (rule floor_unique) simp_all
    have "(of_int (50::int) :: rat) \<noteq> 50 + 1 / 2" by simp
    with calculateProgress_rounds_to_nearest [of "[doneTask, historyTask]"] ex fl
    show ?thesis by (simp del: of_int_numeral)
  qed
  from forty small fortyTasks_counts(3) one all half show ?thesis by simp
qed

section \<open>Validation of the add-task form\<close>

lemma less_mult_iff_div_less:
  fixes a D k :: int
  assumes "0 < D"
  shows "a < D * k \<longleftrightarrow> a div D < k"
proof
  assume less: "a < D * k"
  show "a div D < k"
  proof (rule ccontr)
    assume "\<not> a div D < k"
    then have "k \<le> a div D" by simp
    then have "D * k \<le> D * (a div D)" using assms by (intro mult_left_mono) simp_all
    also have "\<dots> = a - a mod D" by (simp add: minus_mod_eq_mult_div)
    also have "\<dots> \<le> a" using assms by simp
    finally show False using less by simp
  qed
next
  assume "a div D < k"
  then have "a div D + 1 \<le> k" by simp
  then have "D * (a div D + 1) \<le> D * k" using assms by (intro mult_left_mono) simp_all
  then have "D * (a div D) + D \<le> D * k" by (simp add: algebra_simps)
  moreover have "D * (a div D) = a - a mod D" by (simp add: minus_mod_eq_mult_div)
  moreover have "a mod D < D" using assms by simp
  ultimately show "a < D * k" by linarith
qed

text \<open>The deadline is rejected when its local calendar day is before today's.\<close>

lemma deadline_before_today:
  "deadline f < setHours_0 offset now \<longleftrightarrow> local_day offset (deadline f) < local_day offset now"
proof -
  have "setHours_0 offset now = 86400000 * local_day offset now - offset"
    by (simp add: setHours_0_def local_day_def minus_mod_eq_mult_div [symmetric])
  then have "deadline f < setHours_0 offset now
      \<longleftrightarrow> deadline f + offset < 86400000 * local_day offset now"
    by auto
  also have "\<dots> \<longleftrightarrow> local_day offset (deadline f) < local_day offset now"
    using less_mult_iff_div_less [of 86400000 "deadline f + offset" "local_day offset now"]
    by (simp add: local_day_def)
  finally show ?thesis .
qed

lemma set_prop_nonempty: "set_prop k v obj \<noteq> []"
  by (cases obj) (auto split: if_splits)

text \<open>
  The form is accepted exactly when subject, topic and study time are not blank, the
  study time converts to a number, its leading decimal literal is not zero or negative,
  and the deadline's calendar day is today or later.
\<close>

lemma validateForm_accepts_iff:
  "snd (validateForm f offset now) \<longleftrightarrow>
     trim (subject f) \<noteq> [] \<and> trim (topic f) \<noteq> [] \<and> trim (studyTime f) \<noteq> []
     \<and> \<not> isNaN (studyTime f) \<and> \<not> le_zero (parseFloat (studyTime f))
     \<and> local_day offset now \<le> local_day offset (deadline f)"
  using deadline_before_today [of f offset now]
  by (auto simp: validateForm_def Let_def set_prop_nonempty)

text \<open>Every invalid field is reported, not only the first.\<close>

lemma validateForm_reports_every_field:
  "validateForm \<lparr>subject = ''  '', topic = [], studyTime = ''abc'', deadline = 1768431600000\<rparr>
       0 1768467600000
     = ([(''subject'', Str ''Subject name is required''),
         (''topic'', Str ''Topic name is required''),
         (''studyTime'', Str ''Please enter a valid positive number''),
         (''deadline'', Str ''Deadline must be today or a future date'')], False)"
  by code_simp

lemma validateForm_accepts_valid:
  "validateForm \<lparr>subject = ''Math'', topic = ''Algebra'', studyTime = ''2.5'', deadline = 1768554000000\<rparr>
       0 1768467600000 = ([], True)"
  by code_simp

text \<open>
  Claim C6 says that a study time is accepted only if it parses as a finite number
  greater than 0. The string \<^verbatim>\<open>Infinity\<close> is accepted: \<^verbatim>\<open>isNaN("Infinity")\<close> is false
  and \<^verbatim>\<open>parseFloat("Infinity")\<close> is positive infinity, which is not \<open>\<le> 0\<close>. The task
  would be created with an infinite study time, which is stored as \<open>null\<close>.
\<close>

theorem validateForm_accepts_Infinity:
  "validateForm \<lparr>subject = ''Math'', topic = ''Algebra'', studyTime = ''Infinity'',
        deadline = 1768554000000\<rparr> 0 1768467600000 = ([], True)
   \<and> parseFloat ''Infinity'' = PosInf
   \<and> to_json (Num (parseFloat ''Infinity'')) = Some JNull"
  by code_simp

end
